theory Spec2Isabelle
  imports Main "HOL-Library.Word" "HOL-Library.Monad_Syntax"
begin

section \<open>Bytes and typed arrays\<close>

text \<open>
  A \<^verbatim>\<open>Uint8Array\<close> is a list of 8-bit words. Storing a JavaScript number into an
  element converts it modulo 256; a store outside the array is ignored; a read outside
  the array yields \<^verbatim>\<open>undefined\<close>, modelled as \<open>None\<close>.
\<close>

type_synonym byte = "8 word"
type_synonym bytes = "byte list"

definition store_u8 :: "bytes \<Rightarrow> nat \<Rightarrow> nat \<Rightarrow> bytes" where
  "store_u8 target i v = target[i := of_nat v]"

definition read_u8 :: "bytes \<Rightarrow> nat \<Rightarrow> nat option" where
  "read_u8 b i = (if i < length b then Some (unat (b ! i)) else None)"

text \<open>
  \<^verbatim>\<open>target.set(source, offset)\<close> copies \<open>source\<close> into \<open>target\<close> at \<open>offset\<close> and throws a
  RangeError (\<open>None\<close>) when the source does not fit.
\<close>

definition typed_array_set :: "bytes \<Rightarrow> bytes \<Rightarrow> nat \<Rightarrow> bytes option" where
  "typed_array_set target source offset =
     (if length target < offset + length source then None
      else Some (take offset target @ source @ drop (offset + length source) target))"

text \<open>\<^verbatim>\<open>b.slice(start, end)\<close> for non-negative bounds: both are clamped to the length.\<close>

definition slice :: "bytes \<Rightarrow> nat \<Rightarrow> nat \<Rightarrow> bytes" where
  "slice b start end = take (end - start) (drop start b)"

section \<open>Envelope codec\<close>

text \<open>
  The envelope is built inline in \<^verbatim>\<open>saveCredential\<close> (credentials.ts, lines 90-100):
  a zero-filled buffer of the exact size, the length of the session nonce in one byte, the
  nonce, the length of the IV in one byte, the IV, and the ciphertext.
\<close>

definition encode_envelope :: "bytes \<Rightarrow> bytes \<Rightarrow> bytes \<Rightarrow> bytes option" where
  "encode_envelope sessionNonceBytes entryNonce encryptedData =
     (let ivLength = length entryNonce;
          snLength = length sessionNonceBytes;
          blobData0 = replicate (1 + snLength + 1 + ivLength + length encryptedData) (0 :: byte);
          offset0 = 0;
          blobData1 = store_u8 blobData0 offset0 snLength;
          offset1 = offset0 + 1
      in do {
        blobData2 \<leftarrow> typed_array_set blobData1 sessionNonceBytes offset1;
        let offset2 = offset1 + snLength;
        let blobData3 = store_u8 blobData2 offset2 ivLength;
        let offset3 = offset2 + 1;
        blobData4 \<leftarrow> typed_array_set blobData3 entryNonce offset3;
        let offset4 = offset3 + ivLength;
        typed_array_set blobData4 encryptedData offset4
      })"

text \<open>
  The envelope is taken apart inline in the blob loop of \<^verbatim>\<open>getCredential\<close> (lines 310-330)
  and, with the same text, of \<^verbatim>\<open>getCredentialByDomainHash\<close> (lines 480-500). Each of the
  three length checks logs its own warning and skips the blob; the model keeps the three
  apart. \<open>ReadPastEnd\<close> stands for an element read that would yield \<^verbatim>\<open>undefined\<close>.
\<close>

datatype short_reason = BlobTooShort | TooShortForSessionNonce | TooShortForIV

datatype envelope_error = MalformedEnvelope short_reason | ReadPastEnd

definition decode_envelope :: "bytes \<Rightarrow> envelope_error + (bytes \<times> bytes \<times> bytes)" where
  "decode_envelope blobData =
     (if length blobData < 3 then Inl (MalformedEnvelope BlobTooShort)
      else
        (case read_u8 blobData 0 of
           None \<Rightarrow> Inl ReadPastEnd
         | Some snLen \<Rightarrow>
             if length blobData < 1 + snLen + 1
             then Inl (MalformedEnvelope TooShortForSessionNonce)
             else
               (let sessionNonceBytes = slice blobData 1 (1 + snLen);
                    offset1 = 1 + snLen
                in (case read_u8 blobData offset1 of
                      None \<Rightarrow> Inl ReadPastEnd
                    | Some ivLength \<Rightarrow>
                        (let offset2 = offset1 + 1 in
                         if length blobData < offset2 + ivLength
                         then Inl (MalformedEnvelope TooShortForIV)
                         else
                           (let entryNonce = slice blobData offset2 (offset2 + ivLength);
                                offset3 = offset2 + ivLength;
                                encryptedDataBytes = drop offset3 blobData
                            in Inr (sessionNonceBytes, entryNonce, encryptedDataBytes)))))))"

text \<open>
  The lengths an envelope declares, where its header bytes are present: the first byte, and
  the byte that follows the declared session nonce.
\<close>

definition declared_lengths :: "bytes \<Rightarrow> (nat \<times> nat) option" where
  "declared_lengths b =
     (case b of
        [] \<Rightarrow> None
      | x # rest \<Rightarrow>
          (case drop (unat x) rest of
             [] \<Rightarrow> None
           | y # _ \<Rightarrow> Some (unat x, unat y)))"

definition shorter_than_declared :: "bytes \<Rightarrow> bool" where
  "shorter_than_declared b =
     (case declared_lengths b of
        None \<Rightarrow> True
      | Some (snLen, ivLen) \<Rightarrow> length b < 2 + snLen + ivLen)"

section \<open>Master-key manager\<close>

text \<open>
  \<^verbatim>\<open>SecureMasterKeyManager\<close> keeps the master key in a \<^verbatim>\<open>Uint8Array\<close> that it overwrites
  before dropping the reference, so the model has an explicit store of buffers: the state
  holds the address of the key's buffer, not its bytes. Timeouts scheduled with
  \<^verbatim>\<open>setTimeout\<close> live in a table from handles to callbacks, promises are identified by
  handles, and every call of \<^verbatim>\<open>deriveMasterKey\<close> is appended to a log. The body of
  \<^verbatim>\<open>getMasterKey\<close> has no \<^verbatim>\<open>await\<close>: it runs to its \<^verbatim>\<open>return\<close> in one step of the event
  loop, which is one function application here; \<open>now\<close> is the reading of \<^verbatim>\<open>Date.now()\<close>
  during that step.
\<close>

type_synonym handle = nat

record SecureMasterKeyState =
  masterKey :: "handle option"
  isLoading :: bool
  promise :: "handle option"
  lastAddress :: "string option"
  createdAt :: "int option"
  accessCount :: nat
  lastAccessTime :: "int option"
  clearanceTimer :: "handle option"

datatype timer_callback = CheckClearance | ClearOnNextTick

record runtime =
  state :: SecureMasterKeyState
  heap :: "handle \<rightharpoonup> bytes"
  timers :: "handle \<rightharpoonup> timer_callback"
  next_handle :: handle
  derivations :: "(handle \<times> string) list"

definition initial_state :: SecureMasterKeyState where
  "initial_state =
     \<lparr>masterKey = None, isLoading = False, promise = None, lastAddress = None,
      createdAt = None, accessCount = 0, lastAccessTime = None, clearanceTimer = None\<rparr>"

definition initial_runtime :: runtime where
  "initial_runtime =
     \<lparr>state = initial_state, heap = Map.empty, timers = Map.empty, next_handle = 1,
      derivations = []\<rparr>"

definition MAX_KEY_AGE :: int where "MAX_KEY_AGE = 8 * 60 * 60 * 1000"
definition IDLE_TIMEOUT :: int where "IDLE_TIMEOUT = 30 * 60 * 1000"
definition MAX_ACCESS_COUNT :: nat where "MAX_ACCESS_COUNT = 1000"

text \<open>A timestamp is falsy when it is \<^verbatim>\<open>null\<close> or \<open>0\<close>.\<close>

definition falsy_time :: "int option \<Rightarrow> bool" where
  "falsy_time t = (case t of None \<Rightarrow> True | Some v \<Rightarrow> v = 0)"

text \<open>\<^verbatim>\<open>TextEncoder.encode\<close> and \<^verbatim>\<open>TextDecoder.decode\<close>, on strings read as their UTF-8 bytes.\<close>

definition stringToSecureArray :: "string \<Rightarrow> bytes" where
  "stringToSecureArray str = map (\<lambda>c. of_nat (of_char c)) str"

definition secureArrayToString :: "bytes \<Rightarrow> string" where
  "secureArrayToString array = map (\<lambda>b. char_of (unat b)) array"

definition fill_zero :: "(handle \<rightharpoonup> bytes) \<Rightarrow> handle \<Rightarrow> (handle \<rightharpoonup> bytes)" where
  "fill_zero h a = (case h a of None \<Rightarrow> h | Some buf \<Rightarrow> h(a \<mapsto> replicate (length buf) 0))"

definition clearTimeout :: "handle \<Rightarrow> runtime \<Rightarrow> runtime" where
  "clearTimeout t rt = rt\<lparr>timers := (timers rt)(t := None)\<rparr>"

definition setTimeout :: "timer_callback \<Rightarrow> runtime \<Rightarrow> handle \<times> runtime" where
  "setTimeout cb rt =
     (next_handle rt,
      rt\<lparr>timers := (timers rt)(next_handle rt \<mapsto> cb), next_handle := Suc (next_handle rt)\<rparr>)"

definition secureClearKey :: "runtime \<Rightarrow> runtime" where
  "secureClearKey rt =
     (let rt1 = (case masterKey (state rt) of
                   Some a \<Rightarrow> rt\<lparr>heap := fill_zero (heap rt) a,
                                state := (state rt)\<lparr>masterKey := None\<rparr>\<rparr>
                 | None \<Rightarrow> rt)
      in case clearanceTimer (state rt1) of
           Some t \<Rightarrow> (clearTimeout t rt1)\<lparr>state := (state rt1)\<lparr>clearanceTimer := None\<rparr>\<rparr>
         | None \<Rightarrow> rt1)"

definition shouldClearKey :: "int \<Rightarrow> SecureMasterKeyState \<Rightarrow> bool" where
  "shouldClearKey now st =
     (if masterKey st = None \<or> falsy_time (createdAt st) then False
      else
        let age = now - the (createdAt st) in
        if age > MAX_KEY_AGE then True
        else if falsy_time (lastAccessTime st) \<or> now - the (lastAccessTime st) > IDLE_TIMEOUT
          then True
        else if accessCount st > MAX_ACCESS_COUNT then True
        else False)"

definition clearCache :: "runtime \<Rightarrow> runtime" where
  "clearCache rt =
     (let rt1 = secureClearKey rt in
      rt1\<lparr>state := (state rt1)\<lparr>isLoading := False, promise := None, lastAddress := None,
                                 createdAt := None, accessCount := 0,
                                 lastAccessTime := None\<rparr>\<rparr>)"

definition setupClearanceTimer :: "runtime \<Rightarrow> runtime" where
  "setupClearanceTimer rt =
     (let rt1 = (case clearanceTimer (state rt) of
                   Some t \<Rightarrow> clearTimeout t rt
                 | None \<Rightarrow> rt);
          (t', rt2) = setTimeout CheckClearance rt1
      in rt2\<lparr>state := (state rt2)\<lparr>clearanceTimer := Some t'\<rparr>\<rparr>)"

definition recordAccess :: "int \<Rightarrow> runtime \<Rightarrow> runtime" where
  "recordAccess now rt =
     (let rt1 = rt\<lparr>state := (state rt)\<lparr>accessCount := Suc (accessCount (state rt)),
                                         lastAccessTime := Some now\<rparr>\<rparr>
      in if shouldClearKey now (state rt1) then snd (setTimeout ClearOnNextTick rt1) else rt1)"

text \<open>
  What a call of \<^verbatim>\<open>getMasterKey\<close> hands back: the cached key, or a promise. A promise that
  is new comes with a new entry in the log of derivations.
\<close>

datatype key_result = CachedKey string | InFlight handle

definition getMasterKey :: "int \<Rightarrow> string \<Rightarrow> runtime \<Rightarrow> key_result \<times> runtime" where
  "getMasterKey now address rt0 =
     (let rt = (if shouldClearKey now (state rt0) then clearCache rt0 else rt0) in
      if masterKey (state rt) \<noteq> None \<and> lastAddress (state rt) = Some address then
        (let rt1 = recordAccess now rt in
         (CachedKey (secureArrayToString (case heap rt1 (the (masterKey (state rt1))) of
                                            Some buf \<Rightarrow> buf | None \<Rightarrow> [])), rt1))
      else if isLoading (state rt) \<and> lastAddress (state rt) = Some address
              \<and> promise (state rt) \<noteq> None then
        (InFlight (the (promise (state rt))), rt)
      else
        (let rt1 = (if lastAddress (state rt) \<noteq> Some address then clearCache rt else rt);
             p = next_handle rt1;
             rt2 = rt1\<lparr>state := (state rt1)\<lparr>isLoading := True, lastAddress := Some address,
                                               promise := Some p\<rparr>,
                       next_handle := Suc p,
                       derivations := derivations rt1 @ [(p, address)]\<rparr>
         in (InFlight p, rt2)))"

text \<open>The two continuations of the derivation promise, run when it settles.\<close>

definition derivation_resolved :: "int \<Rightarrow> string \<Rightarrow> runtime \<Rightarrow> runtime" where
  "derivation_resolved now key rt =
     (let a = next_handle rt;
          rt1 = rt\<lparr>heap := (heap rt)(a \<mapsto> stringToSecureArray key),
                   next_handle := Suc a,
                   state := (state rt)\<lparr>masterKey := Some a, isLoading := False,
                                         createdAt := Some now, accessCount := 0,
                                         lastAccessTime := Some now\<rparr>\<rparr>
      in recordAccess now (setupClearanceTimer rt1))"

definition derivation_rejected :: "runtime \<Rightarrow> runtime" where
  "derivation_rejected rt = rt\<lparr>state := (state rt)\<lparr>isLoading := False, promise := None\<rparr>\<rparr>"


text \<open>A run of calls of \<^verbatim>\<open>getMasterKey\<close> for one address, at the given clock readings.\<close>

fun getMasterKey_calls :: "int list \<Rightarrow> string \<Rightarrow> runtime \<Rightarrow> key_result list \<times> runtime" where
  "getMasterKey_calls [] address rt = ([], rt)"
| "getMasterKey_calls (now # nows) address rt =
     (let (r, rt1) = getMasterKey now address rt;
          (rs, rt2) = getMasterKey_calls nows address rt1
      in (r # rs, rt2))"

text \<open>
  The manager records the derivation it has started in three fields; this is the record a
  later call looks for (lines 149 and 156): no key, the loading flag, the address of the
  derivation and its promise.
\<close>

definition derivation_recorded :: "runtime \<Rightarrow> string \<Rightarrow> handle \<Rightarrow> bool" where
  "derivation_recorded rt address p \<longleftrightarrow>
     masterKey (state rt) = None \<and> isLoading (state rt) \<and>
     lastAddress (state rt) = Some address \<and> promise (state rt) = Some p"

text \<open>
  A timeout that fires leaves the table and runs its callback: the periodic check of
  \<^verbatim>\<open>setupClearanceTimer\<close> (lines 110-117) or the \<^verbatim>\<open>clearCache\<close> that \<^verbatim>\<open>recordAccess\<close> put off
  to the next tick (line 129).
\<close>

definition timer_fired :: "int \<Rightarrow> handle \<Rightarrow> runtime \<Rightarrow> runtime" where
  "timer_fired now t rt =
     (case timers rt t of
        None \<Rightarrow> rt
      | Some cb \<Rightarrow>
          (let rt1 = rt\<lparr>timers := (timers rt)(t := None)\<rparr>
           in case cb of
                CheckClearance \<Rightarrow>
                  if shouldClearKey now (state rt1) then clearCache rt1
                  else setupClearanceTimer rt1
              | ClearOnNextTick \<Rightarrow> clearCache rt1))"

text \<open>
  What the event loop runs on the manager, one step each: a call of \<^verbatim>\<open>getMasterKey\<close>, the
  continuation of a derivation that has resolved or rejected, a timeout. The continuations
  are those of lines 172-193, whichever derivation they belong to; a derivation is in
  flight from its start until its promise settles.
\<close>

datatype event =
    GetMasterKey int string
  | DerivationResolved handle int string
  | DerivationRejected handle
  | TimerFired int handle

fun step :: "event \<Rightarrow> runtime \<Rightarrow> key_result option \<times> runtime" where
  "step (GetMasterKey now address) rt =
     (let (r, rt1) = getMasterKey now address rt in (Some r, rt1))"
| "step (DerivationResolved p now key) rt = (None, derivation_resolved now key rt)"
| "step (DerivationRejected p) rt = (None, derivation_rejected rt)"
| "step (TimerFired now t) rt = (None, timer_fired now t rt)"

fun run :: "event list \<Rightarrow> runtime \<Rightarrow> key_result option list \<times> runtime" where
  "run [] rt = ([], rt)"
| "run (e # es) rt =
     (let (r, rt1) = step e rt;
          (rs, rt2) = run es rt1
      in (r # rs, rt2))"

fun settled :: "event list \<Rightarrow> handle list" where
  "settled [] = []"
| "settled (DerivationResolved p now key # es) = p # settled es"
| "settled (DerivationRejected p # es) = p # settled es"
| "settled (e # es) = settled es"

definition in_flight :: "event list \<Rightarrow> runtime \<Rightarrow> (handle \<times> string) list" where
  "in_flight es rt = filter (\<lambda>d. fst d \<notin> set (settled es)) (derivations (snd (run es rt)))"

text \<open>
  A run that brings the access count of a cached key to \<open>MAX_ACCESS_COUNT\<close>: a derivation
  that resolves, and 999 reads of the key it cached.
\<close>

definition cached_run :: "event list" where
  "cached_run = [GetMasterKey 1000 ''0xA'', DerivationResolved 1 1000 ''key''] @
     replicate 999 (GetMasterKey 1000 ''0xA'')"

section \<open>Secure persistence manager\<close>

text \<open>
  \<^verbatim>\<open>SecurePersistenceManager\<close> keeps an encrypted session in \<^verbatim>\<open>localStorage\<close> and an
  encrypted list of credentials in \<^verbatim>\<open>sessionStorage\<close>. A storage is a map from keys to
  strings. The primitives the manager calls but does not define (PBKDF2 and SHA-256 of
  \<^verbatim>\<open>crypto.subtle\<close>, \<^verbatim>\<open>decrypt\<close> of the crypto module, base64, \<^verbatim>\<open>JSON.parse\<close>,
  \<^verbatim>\<open>JSON.stringify\<close>, random bytes) are the fields of an environment; one that throws
  returns \<open>None\<close>. A parser of the environment returns \<open>None\<close> also for a text whose value
  is not an object with the fields read from it. \<^verbatim>\<open>expiresAt\<close> of a stored record may be
  missing: \<^verbatim>\<open>now > undefined\<close> is false.
\<close>

type_synonym storage = "string \<rightharpoonup> string"

record StoredData =
  stored_data :: string
  stored_salt :: string
  stored_iv :: string
  stored_iterations :: nat
  stored_timestamp :: int
  stored_expiresAt :: "int option"

record PersistedSession =
  session_address :: string
  session_idToken :: string
  session_provider :: string
  session_createdAt :: int
  session_masterKey :: string
  session_timestamp :: int
  session_expiresAt :: int
  session_sessionId :: string
  session_integrity :: string

record CachedCredential =
  cached_domain :: string
  cached_username :: string
  cached_password :: "string option"

record PersistedCredentials =
  cache_credentials :: "CachedCredential list"
  cache_timestamp :: int
  cache_expiresAt :: int
  cache_sessionId :: string
  cache_integrity :: string

record persistence_env =
  parse_StoredData :: "string \<Rightarrow> StoredData option"
  parse_PersistedSession :: "string \<Rightarrow> PersistedSession option"
  parse_PersistedCredentials :: "string \<Rightarrow> PersistedCredentials option"
  stringify_PersistedSession :: "PersistedSession \<Rightarrow> string"
  stringify_PersistedCredentials :: "PersistedCredentials \<Rightarrow> string"
  atob :: "string \<Rightarrow> bytes option"
  btoa :: "bytes \<Rightarrow> string"
  pbkdf2_sha256 :: "bytes \<Rightarrow> bytes \<Rightarrow> nat \<Rightarrow> bytes option"
  sha256 :: "bytes \<Rightarrow> bytes"
  decrypt_with :: "string \<Rightarrow> string \<Rightarrow> string option"
  random_string :: "nat \<Rightarrow> string"

definition SESSION_KEY :: string where "SESSION_KEY = ''safekey_session_encrypted''"
definition CREDENTIALS_KEY :: string where "CREDENTIALS_KEY = ''safekey_credentials_encrypted''"
definition PBKDF2_ITERATIONS :: nat where "PBKDF2_ITERATIONS = 600000"

subsection \<open>Input validation (security-utils.ts)\<close>

definition is_hex_char :: "char \<Rightarrow> bool" where
  "is_hex_char c =
     (let n = (of_char c :: nat) in
      (48 \<le> n \<and> n \<le> 57) \<or> (65 \<le> n \<and> n \<le> 70) \<or> (97 \<le> n \<and> n \<le> 102))"

text \<open>
  \<^verbatim>\<open>validateSuiAddress\<close> throws unless the address is \<^verbatim>\<open>0x\<close> and 64 hexadecimal digits;
  \<open>True\<close> stands for a normal return.
\<close>

definition validateSuiAddress :: "string \<Rightarrow> bool" where
  "validateSuiAddress address =
     (if address = [] then False
      else length address = 66 \<and> take 2 address = ''0x'' \<and> list_all is_hex_char (drop 2 address))"

text \<open>The characters \<^verbatim>\<open>trim\<close> removes, among the code units below 256.\<close>

definition is_js_whitespace :: "char \<Rightarrow> bool" where
  "is_js_whitespace c = ((of_char c :: nat) \<in> {9, 10, 11, 12, 13, 32, 160})"

text \<open>
  \<^verbatim>\<open>validateJWT\<close> throws for an empty or blank token only; what it finds in a token with
  dots is logged and allowed.
\<close>

definition validateJWT :: "string \<Rightarrow> bool" where
  "validateJWT token =
     (if token = [] then False
      else if list_all is_js_whitespace token then False
      else True)"

subsection \<open>Keys and digests\<close>

definition utf8 :: "string \<Rightarrow> bytes" where
  "utf8 s = map (\<lambda>c. of_nat (of_char c)) s"

definition hex_digit :: "nat \<Rightarrow> char" where
  "hex_digit d = ''0123456789abcdef'' ! d"

definition hex_byte :: "byte \<Rightarrow> string" where
  "hex_byte b = [hex_digit (unat b div 16), hex_digit (unat b mod 16)]"

definition deriveKey :: "persistence_env \<Rightarrow> string \<Rightarrow> bytes \<Rightarrow> nat \<Rightarrow> bytes option" where
  "deriveKey env password salt iterations = pbkdf2_sha256 env (utf8 password) salt iterations"

definition generateEncryptionKey ::
  "persistence_env \<Rightarrow> string \<Rightarrow> string \<Rightarrow> bytes \<Rightarrow> bytes option" where
  "generateEncryptionKey env address idToken salt =
     (let combined = address @ '':'' @ idToken in deriveKey env combined salt PBKDF2_ITERATIONS)"

definition calculateIntegrity :: "persistence_env \<Rightarrow> string \<Rightarrow> bytes \<Rightarrow> string" where
  "calculateIntegrity env d key =
     (let dataBuffer = utf8 d;
          combinedBuffer = dataBuffer @ key;
          hashBuffer = sha256 env combinedBuffer
      in concat (map hex_byte hashBuffer))"

subsection \<open>Clearing a slot\<close>

text \<open>
  \<^verbatim>\<open>clearSession\<close> and \<^verbatim>\<open>clearCredentials\<close> overwrite a non-empty slot with random text and
  then, in their \<^verbatim>\<open>finally\<close>, remove it.
\<close>

definition clear_slot :: "persistence_env \<Rightarrow> string \<Rightarrow> storage \<Rightarrow> storage" where
  "clear_slot env key st =
     (let st1 = (case st key of
                   Some storedDataStr \<Rightarrow>
                     if storedDataStr \<noteq> [] then st(key \<mapsto> random_string env (length storedDataStr))
                     else st
                 | None \<Rightarrow> st)
      in st1(key := None))"

definition clearSession :: "persistence_env \<Rightarrow> storage \<Rightarrow> storage" where
  "clearSession env localStorage = clear_slot env SESSION_KEY localStorage"

definition clearCredentials :: "persistence_env \<Rightarrow> storage \<Rightarrow> storage" where
  "clearCredentials env sessionStorage = clear_slot env CREDENTIALS_KEY sessionStorage"

definition expired :: "int \<Rightarrow> StoredData \<Rightarrow> bool" where
  "expired now storedData = (case stored_expiresAt storedData of None \<Rightarrow> False | Some e \<Rightarrow> now > e)"

subsection \<open>Loading\<close>

text \<open>
  The bodies of the inner \<^verbatim>\<open>try\<close> blocks. \<open>Inl ()\<close> is a throw, which the outer
  \<^verbatim>\<open>catch\<close> turns into clearing the slot and returning \<^verbatim>\<open>null\<close>; \<open>Inr None\<close> is a
  \<^verbatim>\<open>return null\<close> after the slot was cleared in place.
\<close>

definition session_try ::
  "persistence_env \<Rightarrow> string \<Rightarrow> string \<Rightarrow> StoredData \<Rightarrow> bytes \<Rightarrow> storage
   \<Rightarrow> unit + (PersistedSession option \<times> storage)" where
  "session_try env currentAddress currentIdToken storedData encryptionKey localStorage =
     (let encryptionKeyBase64 = btoa env encryptionKey in
      case decrypt_with env (stored_data storedData) encryptionKeyBase64 of
        None \<Rightarrow> Inl ()
      | Some decryptedData \<Rightarrow>
          (case parse_PersistedSession env decryptedData of
             None \<Rightarrow> Inl ()
           | Some session \<Rightarrow>
               if session_address session \<noteq> currentAddress
                  \<or> session_idToken session \<noteq> currentIdToken
               then Inr (None, clearSession env localStorage)
               else
                 let expectedIntegrity =
                       calculateIntegrity env
                         (stringify_PersistedSession env (session\<lparr>session_integrity := []\<rparr>))
                         encryptionKey
                 in if session_integrity session \<noteq> expectedIntegrity
                    then Inr (None, clearSession env localStorage)
                    else Inr (Some session, localStorage)))"

definition getSessionIfValid ::
  "persistence_env \<Rightarrow> int \<Rightarrow> string \<Rightarrow> string \<Rightarrow> storage
   \<Rightarrow> PersistedSession option \<times> storage" where
  "getSessionIfValid env now currentAddress currentIdToken localStorage =
     (let caught = (None, clearSession env localStorage) in
      if \<not> validateSuiAddress currentAddress then caught
      else if \<not> validateJWT currentIdToken then caught
      else
        (case localStorage SESSION_KEY of
           None \<Rightarrow> (None, localStorage)
         | Some storedDataStr \<Rightarrow>
             if storedDataStr = [] then (None, localStorage)
             else
               (case parse_StoredData env storedDataStr of
                  None \<Rightarrow> caught
                | Some storedData \<Rightarrow>
                    if expired now storedData then (None, clearSession env localStorage)
                    else
                      (case atob env (stored_salt storedData) of
                         None \<Rightarrow> caught
                       | Some salt \<Rightarrow>
                           (case generateEncryptionKey env currentAddress currentIdToken salt of
                              None \<Rightarrow> caught
                            | Some encryptionKey \<Rightarrow>
                                (case session_try env currentAddress currentIdToken storedData
                                        encryptionKey localStorage of
                                   Inl _ \<Rightarrow> caught
                                 | Inr r \<Rightarrow> r))))))"

definition credentials_try ::
  "persistence_env \<Rightarrow> StoredData \<Rightarrow> bytes \<Rightarrow> storage
   \<Rightarrow> unit + (CachedCredential list option \<times> storage)" where
  "credentials_try env storedData encryptionKey sessionStorage =
     (let encryptionKeyBase64 = btoa env encryptionKey in
      case decrypt_with env (stored_data storedData) encryptionKeyBase64 of
        None \<Rightarrow> Inl ()
      | Some decryptedData \<Rightarrow>
          (case parse_PersistedCredentials env decryptedData of
             None \<Rightarrow> Inl ()
           | Some cached \<Rightarrow>
               let expectedIntegrity =
                     calculateIntegrity env
                       (stringify_PersistedCredentials env (cached\<lparr>cache_integrity := []\<rparr>))
                       encryptionKey
               in if cache_integrity cached \<noteq> expectedIntegrity
                  then Inr (None, clearCredentials env sessionStorage)
                  else Inr (Some (cache_credentials cached), sessionStorage)))"

definition getCredentials ::
  "persistence_env \<Rightarrow> int \<Rightarrow> string \<Rightarrow> storage \<Rightarrow> CachedCredential list option \<times> storage" where
  "getCredentials env now masterKeyStr sessionStorage =
     (let caught = (None, clearCredentials env sessionStorage) in
      (case sessionStorage CREDENTIALS_KEY of
         None \<Rightarrow> (None, sessionStorage)
       | Some storedDataStr \<Rightarrow>
           if storedDataStr = [] then (None, sessionStorage)
           else
             (case parse_StoredData env storedDataStr of
                None \<Rightarrow> caught
              | Some storedData \<Rightarrow>
                  if expired now storedData then (None, clearCredentials env sessionStorage)
                  else
                    (case atob env (stored_salt storedData) of
                       None \<Rightarrow> caught
                     | Some salt \<Rightarrow>
                         (case deriveKey env masterKeyStr salt (stored_iterations storedData) of
                            None \<Rightarrow> caught
                          | Some encryptionKey \<Rightarrow>
                              (case credentials_try env storedData encryptionKey
                                      sessionStorage of
                                 Inl _ \<Rightarrow> caught
                               | Inr r \<Rightarrow> r))))))"

subsection \<open>What a successful load has checked\<close>

text \<open>
  The checks behind a session or a list of credentials that a load hands back: the stored
  record parsed and had not expired, its salt decoded, the key was derived, the data
  decrypted under that key and parsed, the session is the current user's, and the digest
  stored inside equals the digest recomputed over the rest.
\<close>

definition session_checks_passed ::
  "persistence_env \<Rightarrow> int \<Rightarrow> string \<Rightarrow> string \<Rightarrow> string \<Rightarrow> PersistedSession \<Rightarrow> bool" where
  "session_checks_passed env now a t str s =
     (\<exists>sd salt key plain.
        parse_StoredData env str = Some sd \<and> \<not> expired now sd \<and>
        atob env (stored_salt sd) = Some salt \<and>
        generateEncryptionKey env a t salt = Some key \<and>
        decrypt_with env (stored_data sd) (btoa env key) = Some plain \<and>
        parse_PersistedSession env plain = Some s \<and>
        session_address s = a \<and> session_idToken s = t \<and>
        session_integrity s =
          calculateIntegrity env
            (stringify_PersistedSession env (s\<lparr>session_integrity := []\<rparr>)) key)"

definition credentials_checks_passed ::
  "persistence_env \<Rightarrow> int \<Rightarrow> string \<Rightarrow> string \<Rightarrow> CachedCredential list \<Rightarrow> bool" where
  "credentials_checks_passed env now mk str cs =
     (\<exists>sd salt key plain cached.
        parse_StoredData env str = Some sd \<and> \<not> expired now sd \<and>
        atob env (stored_salt sd) = Some salt \<and>
        deriveKey env mk salt (stored_iterations sd) = Some key \<and>
        decrypt_with env (stored_data sd) (btoa env key) = Some plain \<and>
        parse_PersistedCredentials env plain = Some cached \<and>
        cache_credentials cached = cs \<and>
        cache_integrity cached =
          calculateIntegrity env
            (stringify_PersistedCredentials env (cached\<lparr>cache_integrity := []\<rparr>)) key)"

subsection \<open>A small environment to run the manager in\<close>

definition example_address :: string where
  "example_address = ''0x'' @ replicate 64 (CHR ''a'')"

definition example_stored :: StoredData where
  "example_stored =
     \<lparr>stored_data = ''ciphertext'', stored_salt = ''salt'', stored_iv = ''iv'',
      stored_iterations = 600000, stored_timestamp = 1000, stored_expiresAt = Some 2000\<rparr>"

definition example_session :: PersistedSession where
  "example_session =
     \<lparr>session_address = example_address, session_idToken = ''token'',
      session_provider = ''google'', session_createdAt = 900, session_masterKey = ''km'',
      session_timestamp = 1000, session_expiresAt = 2000, session_sessionId = ''sid'',
      session_integrity = ''00''\<rparr>"

definition example_cache :: PersistedCredentials where
  "example_cache =
     \<lparr>cache_credentials =
        [\<lparr>cached_domain = ''example.com'', cached_username = ''u'', cached_password = Some ''p''\<rparr>],
      cache_timestamp = 1000, cache_expiresAt = 2000, cache_sessionId = ''sid'',
      cache_integrity = ''00''\<rparr>"

definition example_env :: persistence_env where
  "example_env =
     \<lparr>parse_StoredData = (\<lambda>s. if s = ''stored'' then Some example_stored else None),
      parse_PersistedSession = (\<lambda>s. if s = ''plain'' then Some example_session else None),
      parse_PersistedCredentials = (\<lambda>s. if s = ''plain'' then Some example_cache else None),
      stringify_PersistedSession = (\<lambda>_. ''json''),
      stringify_PersistedCredentials = (\<lambda>_. ''json''),
      atob = (\<lambda>s. Some (utf8 s)),
      btoa = (\<lambda>b. if b = utf8 ''salt'' then ''c2FsdA=='' else ''AA==''),
      pbkdf2_sha256 = (\<lambda>password salt iterations. if iterations = 0 then None else Some salt),
      sha256 = (\<lambda>_. [0]),
      decrypt_with =
        (\<lambda>d k. if d = ''ciphertext'' \<and> k = ''c2FsdA=='' then Some ''plain'' else None),
      random_string = (\<lambda>n. replicate n (CHR ''x''))\<rparr>"

section \<open>Vault orchestrator\<close>

text \<open>
  \<^verbatim>\<open>saveCredential\<close> and \<^verbatim>\<open>getCredential\<close> (credentials.ts) work against the ledger, the
  blob store and the crypto module. The crypto module and \<^verbatim>\<open>JSON\<close> are the fields of
  an environment. Byte arrays travel to and from the crypto module as base64 text; that
  wrapping is left out, so the environment's functions take and return bytes. Text is
  read as its UTF-8 bytes. One step of the wrapping can fail and is kept: the reading
  functions write a byte array as text with \<^verbatim>\<open>String.fromCharCode(...bytes)\<close>, a call with
  one argument for each byte, and an engine throws a \<^verbatim>\<open>RangeError\<close> when a call has more
  arguments than it takes (\<open>max_arguments\<close>).
\<close>

datatype json =
    JNull
  | JBool bool
  | JNumber int
  | JString string
  | JArray "json list"
  | JObject "(string \<times> json) list"

record Credential =
  domain :: string
  username :: string
  password :: string

record CredentialInfo =
  info_data :: bytes
  info_entryNonce :: bytes
  info_sessionNonce :: bytes

record vault_env =
  hashDomain :: "string \<Rightarrow> string \<Rightarrow> bytes"
  deriveKS :: "string \<Rightarrow> bytes \<Rightarrow> string option"
  encrypt :: "string \<Rightarrow> string \<Rightarrow> bytes \<times> bytes"
  decrypt :: "bytes \<Rightarrow> bytes \<Rightarrow> string \<Rightarrow> string option"
  json_parse :: "string \<Rightarrow> json option"
  json_stringify :: "json \<Rightarrow> string"
  upload_relay :: bool
  max_arguments :: nat

definition text_decode :: "bytes \<Rightarrow> string" where
  "text_decode b = map (\<lambda>x. char_of (unat x)) b"

definition spread_throws :: "vault_env \<Rightarrow> bytes \<Rightarrow> bool" where
  "spread_throws env b = (max_arguments env < length b)"

subsection \<open>Ledger and blob store\<close>

text \<open>
  The state outside the client: the vault of each address, the entries of each vault by
  domain hash, and the blobs of the store by blob id.
\<close>

record world =
  vaults :: "string \<rightharpoonup> string"
  entries :: "string \<times> bytes \<rightharpoonup> CredentialInfo"
  blob_store :: "string \<rightharpoonup> bytes"

datatype ledger_error = ENotAuthorized | EEntryAlreadyExists | EEntryNotFound

text \<open>
  Modelled from the spec: vault.ts, the client's side of the ledger
  (\<^verbatim>\<open>getUserVaultId\<close>, \<^verbatim>\<open>getOrCreateVault\<close>, \<^verbatim>\<open>checkCredentialExists\<close>,
  \<^verbatim>\<open>getCredentialInfoFromDynamicField\<close>, \<^verbatim>\<open>addCredential\<close>, \<^verbatim>\<open>updateCredential\<close>), is not
  among the sources. The spec's ledger has \<^verbatim>\<open>createRecord(owner)\<close>, \<^verbatim>\<open>recordExists\<close>,
  \<^verbatim>\<open>readRecord\<close> answering the record or NotFound, and a create-or-update
  \<^verbatim>\<open>writeRecord\<close> authenticated as the owner; exactly one record exists per fingerprint
  and owner. The contract's documentation adds that adding an entry that exists and
  updating one that does not are errors.
\<close>

definition getUserVaultId :: "world \<Rightarrow> string \<Rightarrow> string option" where
  "getUserVaultId w address = vaults w address"

definition getOrCreateVault :: "world \<Rightarrow> string \<Rightarrow> string \<Rightarrow> string \<times> world" where
  "getOrCreateVault w address newVaultId =
     (case vaults w address of
        Some vaultId \<Rightarrow> (vaultId, w)
      | None \<Rightarrow> (newVaultId, w\<lparr>vaults := (vaults w)(address \<mapsto> newVaultId)\<rparr>))"

definition checkCredentialExists :: "world \<Rightarrow> string \<Rightarrow> bytes \<Rightarrow> string \<Rightarrow> bool" where
  "checkCredentialExists w vaultId domainHash address = (entries w (vaultId, domainHash) \<noteq> None)"

definition getCredentialInfoFromDynamicField ::
  "world \<Rightarrow> string \<Rightarrow> bytes \<Rightarrow> CredentialInfo option" where
  "getCredentialInfoFromDynamicField w vaultId domainHash = entries w (vaultId, domainHash)"

definition write_entry :: "world \<Rightarrow> string \<Rightarrow> bytes \<Rightarrow> bytes \<Rightarrow> bytes \<Rightarrow> bytes \<Rightarrow> world" where
  "write_entry w vaultId domainHash d entryNonce sessionNonce =
     w\<lparr>entries := (entries w)((vaultId, domainHash) \<mapsto>
          \<lparr>info_data = d, info_entryNonce = entryNonce, info_sessionNonce = sessionNonce\<rparr>)\<rparr>"

definition addCredential ::
  "world \<Rightarrow> string \<Rightarrow> bytes \<Rightarrow> bytes \<Rightarrow> bytes \<Rightarrow> bytes \<Rightarrow> string \<Rightarrow> ledger_error + world" where
  "addCredential w vaultId domainHash d entryNonce sessionNonce address =
     (if vaults w address \<noteq> Some vaultId then Inl ENotAuthorized
      else if entries w (vaultId, domainHash) \<noteq> None then Inl EEntryAlreadyExists
      else Inr (write_entry w vaultId domainHash d entryNonce sessionNonce))"

definition updateCredential ::
  "world \<Rightarrow> string \<Rightarrow> bytes \<Rightarrow> bytes \<Rightarrow> bytes \<Rightarrow> bytes \<Rightarrow> string \<Rightarrow> ledger_error + world" where
  "updateCredential w vaultId domainHash d entryNonce sessionNonce address =
     (if vaults w address \<noteq> Some vaultId then Inl ENotAuthorized
      else if entries w (vaultId, domainHash) = None then Inl EEntryNotFound
      else Inr (write_entry w vaultId domainHash d entryNonce sessionNonce))"

text \<open>
  walrus.ts. \<^verbatim>\<open>retrieveBlob\<close> asks the store and throws (\<open>None\<close>) when the store has no
  answer. \<^verbatim>\<open>retrieveBlobs\<close> asks for every id, drops the failures and collects the rest in a
  \<^verbatim>\<open>Map\<close>: a list of pairs with distinct keys in the order of first insertion.
  \<^verbatim>\<open>storeBlob\<close> sends the bytes and gets the store's answer; with an upload relay
  configured an answer without a blob id is an error.
\<close>

definition retrieveBlob :: "world \<Rightarrow> string \<Rightarrow> bytes option" where
  "retrieveBlob w blobId = blob_store w blobId"

fun map_set :: "('k \<times> 'v) list \<Rightarrow> 'k \<Rightarrow> 'v \<Rightarrow> ('k \<times> 'v) list" where
  "map_set [] k v = [(k, v)]"
| "map_set ((k', v') # m) k v = (if k' = k then (k, v) # m else (k', v') # map_set m k v)"

definition fill_blobMap ::
  "(string \<times> bytes) list \<Rightarrow> (string \<times> bytes option) list \<Rightarrow> (string \<times> bytes) list" where
  "fill_blobMap blobMap0 results =
     foldl (\<lambda>blobMap (blobId, d). case d of Some bs \<Rightarrow> map_set blobMap blobId bs
                                          | None \<Rightarrow> blobMap) blobMap0 results"

definition retrieveBlobs :: "world \<Rightarrow> string list \<Rightarrow> (string \<times> bytes) list" where
  "retrieveBlobs w blobIds =
     (let results = map (\<lambda>blobId. (blobId, retrieveBlob w blobId)) blobIds
      in fill_blobMap [] results)"

definition storeBlob ::
  "vault_env \<Rightarrow> world \<Rightarrow> bytes \<Rightarrow> string option \<Rightarrow> (string \<times> world) option" where
  "storeBlob env w encryptedData answer =
     (case answer of
        None \<Rightarrow> None
      | Some blobId \<Rightarrow>
          if upload_relay env \<and> blobId = [] then None
          else Some (blobId, w\<lparr>blob_store := (blob_store w)(blobId \<mapsto> encryptedData)\<rparr>))"

subsection \<open>Saving\<close>

text \<open>
  What a run of \<^verbatim>\<open>saveCredential\<close> gets from outside: the id of the vault the ledger
  creates if the address has none, the fresh session nonce, whether the wallets, the current
  account and the Enoki wallet are there, and the blob store's answer.
\<close>

record save_inputs =
  newVaultId :: string
  sessionNonce :: bytes
  wallet_ok :: bool
  store_answer :: "string option"

datatype save_error =
    DeriveKSFailed
  | EnvelopeRangeError
  | WalletsRequired
  | StoreBlobFailed
  | LedgerFailed ledger_error

definition credential_json :: "Credential \<Rightarrow> json" where
  "credential_json credential =
     JObject [(''domain'', JString (domain credential)),
              (''username'', JString (username credential)),
              (''password'', JString (password credential))]"

text \<open>The identifiers already on the ledger, as \<^verbatim>\<open>saveCredential\<close> reads them (lines 124-143).\<close>

definition existing_blobIds :: "vault_env \<Rightarrow> world \<Rightarrow> bool \<Rightarrow> string \<Rightarrow> bytes \<Rightarrow> json list" where
  "existing_blobIds env w exists vaultId domainHash =
     (if exists then
        (case getCredentialInfoFromDynamicField w vaultId domainHash of
           None \<Rightarrow> []
         | Some existingInfo \<Rightarrow>
             (case json_parse env (text_decode (info_data existingInfo)) of
                None \<Rightarrow> []
              | Some (JArray blobIds) \<Rightarrow> blobIds
              | Some _ \<Rightarrow> []))
      else [])"

definition saveCredential ::
  "vault_env \<Rightarrow> world \<Rightarrow> Credential \<Rightarrow> string \<Rightarrow> string \<Rightarrow> save_inputs
   \<Rightarrow> (save_error + unit) \<times> world" where
  "saveCredential env w0 credential KM address inp =
     (let domainHash = hashDomain env (domain credential) KM;
          (vaultId, w1) = getOrCreateVault w0 address (newVaultId inp);
          exists = checkCredentialExists w1 vaultId domainHash address;
          sessionNonceBytes = sessionNonce inp
      in (case deriveKS env KM sessionNonceBytes of
            None \<Rightarrow> (Inl DeriveKSFailed, w1)
          | Some KS \<Rightarrow>
              (let credentialData = json_stringify env (credential_json credential);
                   (entryNonce, encryptedData) = encrypt env credentialData KS
               in (case encode_envelope sessionNonceBytes entryNonce encryptedData of
                     None \<Rightarrow> (Inl EnvelopeRangeError, w1)
                   | Some blobData \<Rightarrow>
                       if \<not> wallet_ok inp then (Inl WalletsRequired, w1)
                       else
                         (case storeBlob env w1 blobData (store_answer inp) of
                            None \<Rightarrow> (Inl StoreBlobFailed, w1)
                          | Some (blobId, w2) \<Rightarrow>
                              (let blobIds = existing_blobIds env w2 exists vaultId domainHash;
                                   blobIds' = blobIds @ [JString blobId];
                                   blobIdsJson = json_stringify env (JArray blobIds');
                                   blobIdsBytes = utf8 blobIdsJson
                               in if exists then
                                    (case updateCredential w2 vaultId domainHash blobIdsBytes
                                            [] [] address of
                                       Inl e \<Rightarrow> (Inl (LedgerFailed e), w2)
                                     | Inr w3 \<Rightarrow> (Inr (), w3))
                                  else
                                    (case addCredential w2 vaultId domainHash blobIdsBytes
                                            [] [] address of
                                       Inl e \<Rightarrow> (Inl (LedgerFailed e), w2)
                                     | Inr w3 \<Rightarrow> (Inr (), w3))))))))"

subsection \<open>Reading\<close>

text \<open>
  Reading a property of a parsed value: a \<^verbatim>\<open>TypeError\<close> (\<open>None\<close>) on \<^verbatim>\<open>null\<close>,
  \<^verbatim>\<open>undefined\<close> (\<open>Some None\<close>) on a value that is not an object or has no such key.
\<close>

definition get_property :: "json \<Rightarrow> string \<Rightarrow> json option option" where
  "get_property v k =
     (case v of
        JNull \<Rightarrow> None
      | JObject members \<Rightarrow> Some (map_of members k)
      | _ \<Rightarrow> Some None)"

text \<open>
  The test \<^verbatim>\<open>!x || typeof x !== 'string'\<close> lets through the non-empty strings only.
\<close>

definition nonempty_string :: "json option \<Rightarrow> bool" where
  "nonempty_string x = (case x of Some (JString s) \<Rightarrow> s \<noteq> [] | _ \<Rightarrow> False)"

definition the_string :: "json \<Rightarrow> string" where
  "the_string x = (case x of JString s \<Rightarrow> s | _ \<Rightarrow> [])"

text \<open>
  The two checks on decrypted credential data: \<open>None\<close> when reading a property throws,
  \<open>Some None\<close> when the username or the password is not a non-empty string.
\<close>

definition checked_credential :: "json \<Rightarrow> (string \<times> string) option option" where
  "checked_credential credentialData =
     (case get_property credentialData ''username'' of
        None \<Rightarrow> None
      | Some u \<Rightarrow>
          if \<not> nonempty_string u then Some None
          else
            (case get_property credentialData ''password'' of
               None \<Rightarrow> None
             | Some p \<Rightarrow>
                 if \<not> nonempty_string p then Some None
                 else Some (Some (the_string (the u), the_string (the p)))))"

definition falsy :: "json option \<Rightarrow> bool" where
  "falsy x =
     (case x of
        None \<Rightarrow> True
      | Some JNull \<Rightarrow> True
      | Some (JBool b) \<Rightarrow> \<not> b
      | Some (JNumber n) \<Rightarrow> n = 0
      | Some (JString s) \<Rightarrow> s = []
      | Some _ \<Rightarrow> False)"

text \<open>
  \<^verbatim>\<open>credentialData.domain || 'unknown'\<close> of \<^verbatim>\<open>getCredentialByDomainHash\<close>. The code keeps a
  truthy value that is not a string as it is; the domain of a credential is a string here,
  and such a value appears as its JSON text.
\<close>

definition domain_or_unknown :: "vault_env \<Rightarrow> json \<Rightarrow> string" where
  "domain_or_unknown env credentialData =
     (case get_property credentialData ''domain'' of
        None \<Rightarrow> ''unknown''
      | Some d \<Rightarrow>
          if falsy d then ''unknown''
          else (case d of Some (JString s) \<Rightarrow> s | Some v \<Rightarrow> json_stringify env v
                | None \<Rightarrow> ''unknown''))"

text \<open>
  The body of the loop over the retrieved blobs (lines 308-364 and 478-534): the envelope
  is taken apart, the session key derived from the nonce inside, the ciphertext decrypted
  and parsed, the credential checked. A blob is skipped with a warning by one of the length
  guards (\<open>BadEnvelope\<close>) or by a failed check (\<open>InvalidCredentialData\<close>), and with an
  error message by the \<^verbatim>\<open>catch\<close> of the loop (\<open>Caught\<close>), which is where every exception
  ends: of \<^verbatim>\<open>String.fromCharCode(...bytes)\<close> on the nonce, the IV or the ciphertext (lines
  332, 336 and 337), of \<^verbatim>\<open>deriveKS\<close>, of \<^verbatim>\<open>decrypt\<close>, of \<^verbatim>\<open>JSON.parse\<close> and of reading a
  property of \<^verbatim>\<open>null\<close>.
\<close>

datatype skip_reason = BadEnvelope envelope_error | InvalidCredentialData | Caught

datatype blob_outcome = Decoded Credential | Skipped skip_reason

definition process_blob :: "vault_env \<Rightarrow> (json \<Rightarrow> string) \<Rightarrow> string \<Rightarrow> bytes \<Rightarrow> blob_outcome" where
  "process_blob env pick_domain KM blobData =
     (case decode_envelope blobData of
        Inl e \<Rightarrow> Skipped (BadEnvelope e)
      | Inr (sessionNonceBytes, entryNonce, encryptedDataBytes) \<Rightarrow>
          if spread_throws env sessionNonceBytes then Skipped Caught
          else
            (case deriveKS env KM sessionNonceBytes of
               None \<Rightarrow> Skipped Caught
             | Some KS \<Rightarrow>
                 if spread_throws env entryNonce \<or> spread_throws env encryptedDataBytes
                 then Skipped Caught
                 else
                   (case decrypt env entryNonce encryptedDataBytes KS of
                      None \<Rightarrow> Skipped Caught
                    | Some decryptedData \<Rightarrow>
                        (case json_parse env decryptedData of
                           None \<Rightarrow> Skipped Caught
                         | Some credentialData \<Rightarrow>
                             (case checked_credential credentialData of
                                None \<Rightarrow> Skipped Caught
                              | Some None \<Rightarrow> Skipped InvalidCredentialData
                              | Some (Some (u, p)) \<Rightarrow>
                                  Decoded \<lparr>domain = pick_domain credentialData,
                                           username = u, password = p\<rparr>)))))"

text \<open>
  What the function writes to the console where it skips a blob or returns; the progress
  messages in between are left out. A skipped blob is named in a warning (the guards and the
  checks) or in an error message (the \<^verbatim>\<open>catch\<close> of the loop).
\<close>

datatype console_message =
    NoVaultFound
  | CredentialDoesNotExist
  | InfoReturnedNull
  | FallingBackToOnChainDecrypt
  | NoBlobIdsFound
  | NoBlobsRetrieved
  | BlobSkipped string skip_reason
  | NoValidCredentialsDecrypted
  | ReturningCredentials nat

fun collect_credentials ::
  "vault_env \<Rightarrow> (json \<Rightarrow> string) \<Rightarrow> string \<Rightarrow> (string \<times> bytes) list
   \<Rightarrow> Credential list \<times> console_message list \<Rightarrow> Credential list \<times> console_message list" where
  "collect_credentials env pick_domain KM [] (credentials, console) = (credentials, console)"
| "collect_credentials env pick_domain KM ((blobId, blobData) # blobMap) (credentials, console) =
     (case process_blob env pick_domain KM blobData of
        Decoded c \<Rightarrow>
          collect_credentials env pick_domain KM blobMap (credentials @ [c], console)
      | Skipped r \<Rightarrow>
          collect_credentials env pick_domain KM blobMap
            (credentials, console @ [BlobSkipped blobId r]))"

text \<open>
  The \<^verbatim>\<open>try\<close> block that reads the payload as an array of blob ids (lines 235-243 and
  416-424, the same text): \<open>None\<close> when it throws, which is when \<^verbatim>\<open>JSON.parse\<close> throws or
  the value is not an array whose every element is a non-empty string.
\<close>

definition is_blob_id :: "json \<Rightarrow> bool" where
  "is_blob_id x = (case x of JString s \<Rightarrow> s \<noteq> [] | _ \<Rightarrow> False)"

definition try_parse_blob_ids :: "vault_env \<Rightarrow> bytes \<Rightarrow> string list option" where
  "try_parse_blob_ids env d =
     (let dataStr = text_decode d in
      (case json_parse env dataStr of
         None \<Rightarrow> None
       | Some parsed \<Rightarrow>
           (let isBlobArray = (case parsed of JArray xs \<Rightarrow> list_all is_blob_id xs | _ \<Rightarrow> False)
            in if \<not> isBlobArray then None
               else (case parsed of JArray xs \<Rightarrow> Some (map the_string xs) | _ \<Rightarrow> None))))"

datatype get_error =
    RangeErrorThrown
  | DeriveKSThrew
  | DecryptThrew
  | JsonParseThrew
  | PropertyOfNullThrew
  | InvalidCredentialThrown
  | FailedToParseDecrypted

text \<open>
  The \<^verbatim>\<open>catch\<close> block of \<^verbatim>\<open>getCredential\<close> (lines 244-288): the legacy path, which decrypts
  the payload itself with the nonces of the record, after writing the three byte arrays as
  text (lines 253-255). Whatever goes wrong after the decryption is thrown again as a
  failure to parse.
\<close>

definition legacy_decrypt ::
  "vault_env \<Rightarrow> CredentialInfo \<Rightarrow> string \<Rightarrow> string \<Rightarrow> get_error + Credential list option" where
  "legacy_decrypt env info domain' KM =
     (if spread_throws env (info_sessionNonce info) \<or> spread_throws env (info_entryNonce info)
         \<or> spread_throws env (info_data info)
      then Inl RangeErrorThrown
      else
        (case deriveKS env KM (info_sessionNonce info) of
           None \<Rightarrow> Inl DeriveKSThrew
         | Some KS \<Rightarrow>
             (case decrypt env (info_entryNonce info) (info_data info) KS of
                None \<Rightarrow> Inl DecryptThrew
              | Some decryptedData \<Rightarrow>
                  (case json_parse env decryptedData of
                     None \<Rightarrow> Inl FailedToParseDecrypted
                   | Some credentialData \<Rightarrow>
                       (case checked_credential credentialData of
                          Some (Some (u, p)) \<Rightarrow>
                            Inr (Some [\<lparr>domain = domain', username = u, password = p\<rparr>])
                        | _ \<Rightarrow> Inl FailedToParseDecrypted)))))"

text \<open>
  The \<^verbatim>\<open>catch\<close> block of \<^verbatim>\<open>getCredentialByDomainHash\<close> (lines 425-459): the same path,
  with the domain taken from the decrypted data and each error thrown on as it is.
\<close>

definition legacy_decrypt_by_hash ::
  "vault_env \<Rightarrow> CredentialInfo \<Rightarrow> string \<Rightarrow> get_error + Credential list option" where
  "legacy_decrypt_by_hash env info KM =
     (if spread_throws env (info_sessionNonce info) \<or> spread_throws env (info_entryNonce info)
         \<or> spread_throws env (info_data info)
      then Inl RangeErrorThrown
      else
        (case deriveKS env KM (info_sessionNonce info) of
           None \<Rightarrow> Inl DeriveKSThrew
         | Some KS \<Rightarrow>
             (case decrypt env (info_entryNonce info) (info_data info) KS of
                None \<Rightarrow> Inl DecryptThrew
              | Some decryptedData \<Rightarrow>
                  (case json_parse env decryptedData of
                     None \<Rightarrow> Inl JsonParseThrew
                   | Some credentialData \<Rightarrow>
                       (case checked_credential credentialData of
                          None \<Rightarrow> Inl PropertyOfNullThrew
                        | Some None \<Rightarrow> Inl InvalidCredentialThrown
                        | Some (Some (u, p)) \<Rightarrow>
                            Inr (Some [\<lparr>domain = domain_or_unknown env credentialData,
                                        username = u, password = p\<rparr>]))))))"

text \<open>
  The part of both functions after the format is known to be the current one. A function
  that reads a credential gives the value it returns and what it wrote to the console.
\<close>

definition fetch_and_decrypt ::
  "vault_env \<Rightarrow> world \<Rightarrow> (json \<Rightarrow> string) \<Rightarrow> string \<Rightarrow> string list
   \<Rightarrow> Credential list option \<times> console_message list" where
  "fetch_and_decrypt env w pick_domain KM blobIds =
     (if blobIds = [] then (None, [NoBlobIdsFound])
      else
        (let blobMap = retrieveBlobs w blobIds in
         if blobMap = [] then (None, [NoBlobsRetrieved])
         else
           (let (credentials, console) = collect_credentials env pick_domain KM blobMap ([], [])
            in if credentials = [] then (None, console @ [NoValidCredentialsDecrypted])
               else (Some credentials, console @ [ReturningCredentials (length credentials)]))))"

definition getCredential ::
  "vault_env \<Rightarrow> world \<Rightarrow> string \<Rightarrow> string \<Rightarrow> string
   \<Rightarrow> (get_error + Credential list option) \<times> console_message list" where
  "getCredential env w domain' KM address =
     (let domainHash = hashDomain env domain' KM in
      (case getUserVaultId w address of
         None \<Rightarrow> (Inr None, [NoVaultFound])
       | Some vaultId \<Rightarrow>
           if \<not> checkCredentialExists w vaultId domainHash address
           then (Inr None, [CredentialDoesNotExist])
           else
             (case getCredentialInfoFromDynamicField w vaultId domainHash of
                None \<Rightarrow> (Inr None, [InfoReturnedNull])
              | Some info \<Rightarrow>
                  (case try_parse_blob_ids env (info_data info) of
                     None \<Rightarrow>
                       (legacy_decrypt env info domain' KM, [FallingBackToOnChainDecrypt])
                   | Some blobIds \<Rightarrow>
                       (let (credentials, console) =
                              fetch_and_decrypt env w (\<lambda>_. domain') KM blobIds
                        in (Inr credentials, console))))))"

definition getCredentialByDomainHash ::
  "vault_env \<Rightarrow> world \<Rightarrow> bytes \<Rightarrow> string \<Rightarrow> string
   \<Rightarrow> (get_error + Credential list option) \<times> console_message list" where
  "getCredentialByDomainHash env w domainHash KM address =
     (case getUserVaultId w address of
        None \<Rightarrow> (Inr None, [NoVaultFound])
      | Some vaultId \<Rightarrow>
          if \<not> checkCredentialExists w vaultId domainHash address
          then (Inr None, [CredentialDoesNotExist])
          else
            (case getCredentialInfoFromDynamicField w vaultId domainHash of
               None \<Rightarrow> (Inr None, [InfoReturnedNull])
             | Some info \<Rightarrow>
                 (case try_parse_blob_ids env (info_data info) of
                    None \<Rightarrow>
                      (legacy_decrypt_by_hash env info KM, [FallingBackToOnChainDecrypt])
                  | Some blobIds \<Rightarrow>
                      (let (credentials, console) =
                             fetch_and_decrypt env w (domain_or_unknown env) KM blobIds
                       in (Inr credentials, console)))))"

subsection \<open>A small environment and some ledgers to run the orchestrator in\<close>

text \<open>
  The values that the spec asks of a payload for the current format: a non-empty array of
  non-empty strings.
\<close>

definition spec_current_payload :: "json option \<Rightarrow> bool" where
  "spec_current_payload parsed =
     (case parsed of
        Some (JArray xs) \<Rightarrow> xs \<noteq> [] \<and> list_all is_blob_id xs
      | _ \<Rightarrow> False)"

definition alice :: Credential where
  "alice = \<lparr>domain = ''example.com'', username = ''alice'', password = ''pw1''\<rparr>"

definition bob :: Credential where
  "bob = \<lparr>domain = ''example.com'', username = ''bob'', password = ''pw2''\<rparr>"

definition carol :: Credential where
  "carol = \<lparr>domain = ''example.com'', username = ''carol'', password = []\<rparr>"

definition example_stringify :: "json \<Rightarrow> string" where
  "example_stringify v =
     (if v = JArray [] then ''[]''
      else if v = JArray [JString ''b1''] then ''[b1]''
      else if v = JArray [JString ''b1'', JString ''b2''] then ''[b1,b2]''
      else if v = credential_json alice then ''{alice}''
      else if v = credential_json bob then ''{bob}''
      else if v = credential_json carol then ''{carol}''
      else ''null'')"

definition example_parse :: "string \<Rightarrow> json option" where
  "example_parse s =
     (if s = ''[]'' then Some (JArray [])
      else if s = ''[b1]'' then Some (JArray [JString ''b1''])
      else if s = ''[b1,b2]'' then Some (JArray [JString ''b1'', JString ''b2''])
      else if s = ''{alice}'' then Some (credential_json alice)
      else if s = ''{bob}'' then Some (credential_json bob)
      else if s = ''{carol}'' then Some (credential_json carol)
      else if s = ''null'' then Some JNull
      else None)"

definition example_vault_env :: vault_env where
  "example_vault_env =
     \<lparr>hashDomain = (\<lambda>d km. utf8 d),
      deriveKS = (\<lambda>km nonce. if nonce = [] then None else Some (km @ text_decode nonce)),
      encrypt = (\<lambda>plaintext ks. ([1, 2, 3], utf8 plaintext)),
      decrypt = (\<lambda>iv ct ks. if iv = [1, 2, 3] then Some (text_decode ct) else None),
      json_parse = example_parse,
      json_stringify = example_stringify,
      upload_relay = True,
      max_arguments = 65535\<rparr>"

definition empty_world :: world where
  "empty_world = \<lparr>vaults = Map.empty, entries = Map.empty, blob_store = Map.empty\<rparr>"

definition world_with_payload :: "string \<Rightarrow> (string \<rightharpoonup> bytes) \<Rightarrow> world" where
  "world_with_payload payload blobs =
     \<lparr>vaults = [''0xA'' \<mapsto> ''vault1''],
      entries = [(''vault1'', utf8 ''example.com'') \<mapsto>
                  \<lparr>info_data = utf8 payload, info_entryNonce = [], info_sessionNonce = []\<rparr>],
      blob_store = blobs\<rparr>"

definition first_inputs :: save_inputs where
  "first_inputs =
     \<lparr>newVaultId = ''vault1'', sessionNonce = [9], wallet_ok = True, store_answer = Some ''b1''\<rparr>"

definition second_inputs :: save_inputs where
  "second_inputs =
     \<lparr>newVaultId = ''vault2'', sessionNonce = [8], wallet_ok = True, store_answer = Some ''b2''\<rparr>"

definition alice_blob :: bytes where
  "alice_blob = the (encode_envelope [9] [1, 2, 3] (utf8 ''{alice}''))"

definition legacy_info :: CredentialInfo where
  "legacy_info =
     \<lparr>info_data = utf8 ''ciphertext'', info_entryNonce = [], info_sessionNonce = []\<rparr>"

subsection \<open>What saving and reading back ask of the collaborators\<close>

text \<open>
  The vault a save works on, and the identifiers it finds on the ledger for a domain hash.
\<close>

definition vault_for :: "world \<Rightarrow> string \<Rightarrow> save_inputs \<Rightarrow> string" where
  "vault_for w address inp = fst (getOrCreateVault w address (newVaultId inp))"

definition ids_on_ledger :: "vault_env \<Rightarrow> world \<Rightarrow> string \<Rightarrow> bytes \<Rightarrow> json list" where
  "ids_on_ledger env w vaultId domainHash =
     existing_blobIds env w (entries w (vaultId, domainHash) \<noteq> None) vaultId domainHash"

text \<open>
  \<^verbatim>\<open>JSON.parse\<close> gives back a value that \<^verbatim>\<open>JSON.stringify\<close> has written, and the session key
  of a nonce decrypts what it has encrypted.
\<close>

definition json_round_trips :: "vault_env \<Rightarrow> json \<Rightarrow> bool" where
  "json_round_trips env v = (json_parse env (json_stringify env v) = Some v)"

definition decrypt_inverts_encrypt :: "vault_env \<Rightarrow> string \<Rightarrow> bytes \<Rightarrow> string \<Rightarrow> bool" where
  "decrypt_inverts_encrypt env KM nonce plaintext =
     (case deriveKS env KM nonce of
        None \<Rightarrow> False
      | Some KS \<Rightarrow>
          (let (iv, ct) = encrypt env plaintext KS in decrypt env iv ct KS = Some plaintext))"

text \<open>
  The limits within which the envelope of an encrypted text can be read back: the nonce and
  the IV fit their length bytes, the envelope has the three bytes that the first guard of
  the reader asks for, and the nonce, the IV and the ciphertext each have no more bytes than
  a call takes arguments.
\<close>

definition envelope_within_limits :: "vault_env \<Rightarrow> string \<Rightarrow> bytes \<Rightarrow> string \<Rightarrow> bool" where
  "envelope_within_limits env KM nonce plaintext =
     (case deriveKS env KM nonce of
        None \<Rightarrow> True
      | Some KS \<Rightarrow>
          (let (iv, ct) = encrypt env plaintext KS
           in length nonce \<le> 255 \<and> length iv \<le> 255 \<and>
              3 \<le> 2 + length nonce + length iv + length ct \<and>
              length nonce \<le> max_arguments env \<and> length iv \<le> max_arguments env \<and>
              length ct \<le> max_arguments env))"

text \<open>
  The ledger and the blob store after one save and after two saves into the empty world,
  for the texts that the credentials were written as.
\<close>

definition saved_once :: "string \<Rightarrow> world" where
  "saved_once first =
     \<lparr>vaults = [''0xA'' \<mapsto> ''vault1''],
      entries = [(''vault1'', utf8 ''example.com'') \<mapsto>
        \<lparr>info_data = utf8 ''[b1]'', info_entryNonce = [], info_sessionNonce = []\<rparr>],
      blob_store = [''b1'' \<mapsto> 1 # [9] @ 3 # [1, 2, 3] @ utf8 first]\<rparr>"

definition saved_twice :: "string \<Rightarrow> string \<Rightarrow> world" where
  "saved_twice first second =
     \<lparr>vaults = [''0xA'' \<mapsto> ''vault1''],
      entries = [(''vault1'', utf8 ''example.com'') \<mapsto>
        \<lparr>info_data = utf8 ''[b1,b2]'', info_entryNonce = [], info_sessionNonce = []\<rparr>],
      blob_store = [''b1'' \<mapsto> 1 # [9] @ 3 # [1, 2, 3] @ utf8 first,
                    ''b2'' \<mapsto> 1 # [8] @ 3 # [1, 2, 3] @ utf8 second]\<rparr>"

section \<open>Pending-write queue\<close>

text \<open>
  The extension's local server queues save requests; the dashboard, which can sign, polls
  the queue every ten seconds and carries the requests out (\<^verbatim>\<open>processQueue\<close> in the
  dashboard's initialisation).
\<close>

record PendingSave =
  item_id :: string
  item_domain :: string
  item_username :: string
  item_password :: string
  item_enqueuedAt :: int

text \<open>
  Modelled from the spec: save-queue.ts (\<^verbatim>\<open>queueSave\<close>, \<^verbatim>\<open>getPendingSaves\<close>,
  \<^verbatim>\<open>removeFromQueue\<close>), which the server imports, is not among the sources. The spec's queue
  is a mailbox keyed by a generated identifier, drained in the order of enqueueing:
  \<^verbatim>\<open>enqueue\<close> stores the request under a new id and returns the id, without enforcing
  uniqueness of the payloads; polling returns the entries not yet completed;
  \<^verbatim>\<open>acknowledge(id)\<close> removes the entry. \<^verbatim>\<open>removeFromQueue\<close> tells its caller whether it
  found the entry.
\<close>

definition queueSave ::
  "PendingSave list \<Rightarrow> string \<Rightarrow> int \<Rightarrow> string \<Rightarrow> string \<Rightarrow> string \<Rightarrow> string \<times> PendingSave list" where
  "queueSave q newId now d u p =
     (newId, q @ [\<lparr>item_id = newId, item_domain = d, item_username = u, item_password = p,
                   item_enqueuedAt = now\<rparr>])"









subsection \<open>Two poll cycles to run\<close>





section \<open>Facts about the envelope codec\<close>

lemma store_u8_append:
  "length pre = i \<Longrightarrow> store_u8 (pre @ x # post) i v = pre @ of_nat v # post"
  by (simp add: store_u8_def list_update_append)

lemma typed_array_set_append:
  "length pre = offset \<Longrightarrow> length mid = length source \<Longrightarrow>
   typed_array_set (pre @ mid @ post) source offset = Some (pre @ source @ post)"
  by (simp add: typed_array_set_def)

lemma zero_buffer_split:
  "replicate (1 + a + 1 + b + c) (0 :: byte) =
     [] @ 0 # (replicate a 0 @ 0 # replicate b 0 @ replicate c 0)"
  by (simp add: replicate_add replicate_append_same)

lemma encode_envelope_layout:
  "encode_envelope sn iv ct =
     Some (of_nat (length sn) # sn @ of_nat (length iv) # iv @ ct)"
proof -
  let ?a = "of_nat (length sn) :: byte" and ?b = "of_nat (length iv) :: byte"
  define z where "z = replicate (length ct) (0 :: byte)"
  define b1 where "b1 = store_u8 (replicate (1 + length sn + 1 + length iv + length ct) 0) 0 (length sn)"
  have s1: "b1 = [?a] @ replicate (length sn) 0 @ (0 # replicate (length iv) 0 @ z)"
    unfolding zero_buffer_split b1_def z_def by (subst store_u8_append) simp_all
  define b2 where "b2 = [?a] @ sn @ (0 # replicate (length iv) 0 @ z)"
  have s2: "typed_array_set b1 sn (0 + 1) = Some b2"
    unfolding s1 b2_def by (rule typed_array_set_append) simp_all
  define b3 where "b3 = store_u8 b2 (0 + 1 + length sn) (length iv)"
  have s3: "b3 = (?a # sn @ [?b]) @ replicate (length iv) 0 @ z"
    unfolding b3_def b2_def
    using store_u8_append [of "?a # sn" "1 + length sn" 0 "replicate (length iv) 0 @ z" "length iv"]
    by simp
  define b4 where "b4 = (?a # sn @ [?b] @ iv) @ z @ []"
  have s4: "typed_array_set b3 iv (0 + 1 + length sn + 1) = Some b4"
    unfolding s3 b4_def
    using typed_array_set_append [of "?a # sn @ [?b]" "0 + 1 + length sn + 1" "replicate (length iv) 0" iv z]
    by simp
  have s5: "typed_array_set b4 ct (0 + 1 + length sn + 1 + length iv) = Some ((?a # sn @ [?b] @ iv) @ ct @ [])"
    unfolding b4_def z_def by (rule typed_array_set_append) simp_all
  have "encode_envelope sn iv ct = Some ((?a # sn @ [?b] @ iv) @ ct @ [])"
    unfolding encode_envelope_def Let_def b1_def [symmetric]
    by (simp only: s2 bind.simps b3_def [symmetric] s4 s5)
  then show ?thesis by simp
qed

lemma read_u8_in_range: "i < length b \<Longrightarrow> read_u8 b i = Some (unat (b ! i))"
  by (simp add: read_u8_def)

lemma unat_byte_of_nat: "n \<le> 255 \<Longrightarrow> unat (of_nat n :: byte) = n"
  by (simp add: unat_of_nat)

lemma unat_byte_le: "unat (x :: byte) \<le> 255"
  using unsigned_less [of x, where 'a = nat] by simp

lemma decode_envelope_layout:
  assumes "length sn \<le> 255" and "length iv \<le> 255" and "sn \<noteq> [] \<or> iv \<noteq> [] \<or> ct \<noteq> []"
  shows "decode_envelope (of_nat (length sn) # sn @ of_nat (length iv) # iv @ ct) = Inr (sn, iv, ct)"
proof -
  let ?b = "of_nat (length sn) # sn @ of_nat (length iv) # iv @ ct :: bytes"
  have len: "\<not> length ?b < 3" using assms(3) by (auto simp: neq_Nil_conv)
  have r0: "read_u8 ?b 0 = Some (length sn)"
    by (simp add: read_u8_def unat_byte_of_nat assms)
  have r1: "read_u8 ?b (1 + length sn) = Some (length iv)"
    by (simp add: read_u8_def unat_byte_of_nat assms nth_append)
  show ?thesis
    unfolding decode_envelope_def Let_def
    by (simp only: len if_False r0 r1 option.case) (simp add: slice_def)
qed

lemma decode_envelope_Inr:
  assumes "decode_envelope b = Inr (sn, iv, ct)"
  shows "b = of_nat (length sn) # sn @ of_nat (length iv) # iv @ ct"
    and "length sn \<le> 255" and "length iv \<le> 255"
    and "declared_lengths b = Some (length sn, length iv)"
proof -
  from assms have l3: "\<not> length b < 3"
    by (auto simp: decode_envelope_def split: if_splits)
  then obtain x rest where b: "b = x # rest" by (cases b) auto
  have r0: "read_u8 b 0 = Some (unat x)" by (simp add: b read_u8_def)
  from assms l3 r0 have l1: "\<not> length b < 1 + unat x + 1"
    by (auto simp: decode_envelope_def Let_def split: if_splits)
  then have "unat x < length rest" by (simp add: b)
  then obtain y where y: "rest ! unat x = y" and rest: "rest = take (unat x) rest @ y # drop (Suc (unat x)) rest"
    by (metis id_take_nth_drop)
  have r1: "read_u8 b (1 + unat x) = Some (unat y)"
    using \<open>unat x < length rest\<close> by (simp add: b read_u8_def y)
  from assms l3 r0 l1 r1 have l2: "\<not> length b < 1 + unat x + 1 + unat y"
    and res: "sn = slice b 1 (1 + unat x)" "iv = slice b (1 + unat x + 1) (1 + unat x + 1 + unat y)"
      "ct = drop (1 + unat x + 1 + unat y) b"
    by (auto simp: decode_envelope_def Let_def split: if_splits)
  have sn: "sn = take (unat x) rest" using res(1) by (simp add: slice_def b)
  have lsn: "length sn = unat x" using sn \<open>unat x < length rest\<close> by simp
  have iv: "iv = take (unat y) (drop (Suc (unat x)) rest)" using res(2) by (simp add: slice_def b)
  have liv: "length iv = unat y" using iv l2 by (simp add: b)
  have ct: "ct = drop (unat y) (drop (Suc (unat x)) rest)" using res(3) by (simp add: b add.commute)
  show "length sn \<le> 255" using lsn unat_byte_le by simp
  show "length iv \<le> 255" using liv unat_byte_le by simp
  have ct': "ct = drop (unat y) (drop (Suc (unat x)) rest)" using ct by (simp add: add.commute)
  have "drop (Suc (unat x)) rest = iv @ ct" unfolding iv ct' by (rule append_take_drop_id [symmetric])
  with rest sn have "rest = sn @ y # iv @ ct" by simp
  then show "b = of_nat (length sn) # sn @ of_nat (length iv) # iv @ ct"
    by (simp add: b lsn liv)
  show "declared_lengths b = Some (length sn, length iv)"
    using \<open>unat x < length rest\<close> y
    by (simp add: declared_lengths_def b lsn liv Cons_nth_drop_Suc [symmetric])
qed

lemma decode_envelope_no_read_past_end: "decode_envelope b \<noteq> Inl ReadPastEnd"
proof (cases "length b < 3")
  case True
  then show ?thesis by (simp add: decode_envelope_def)
next
  case l3: False
  then have "0 < length b" by arith
  then have r0: "read_u8 b 0 = Some (unat (b ! 0))" by (simp add: read_u8_def)
  show ?thesis
  proof (cases "length b < 1 + unat (b ! 0) + 1")
    case True
    with l3 r0 show ?thesis by (simp add: decode_envelope_def)
  next
    case l1: False
    then have r1: "read_u8 b (1 + unat (b ! 0)) = Some (unat (b ! (1 + unat (b ! 0))))"
      by (simp add: read_u8_def)
    show ?thesis
      unfolding decode_envelope_def Let_def
      by (simp only: l3 l1 r0 r1 if_False option.case) (simp split: if_splits)
  qed
qed

lemma shorter_than_declared_fails:
  assumes "shorter_than_declared b"
  shows "\<exists>r. decode_envelope b = Inl (MalformedEnvelope r)"
proof (cases "decode_envelope b")
  case (Inl e)
  then show ?thesis using decode_envelope_no_read_past_end [of b] by (cases e) simp_all
next
  case (Inr t)
  obtain sn iv ct where "t = (sn, iv, ct)" by (cases t) auto
  with Inr have d: "decode_envelope b = Inr (sn, iv, ct)" by simp
  from decode_envelope_Inr(1) [OF d] have "b = of_nat (length sn) # sn @ of_nat (length iv) # iv @ ct" .
  then have "length b = length (of_nat (length sn) # sn @ of_nat (length iv) # iv @ ct :: bytes)"
    by simp
  then have "length b = 2 + length sn + length iv + length ct"
    by simp
  with decode_envelope_Inr(4) [OF d] assms show ?thesis
    by (simp add: shorter_than_declared_def)
qed

section \<open>Claims about the envelope codec\<close>

text \<open>
  The envelope of three empty fields is the two-byte buffer \<open>[0, 0]\<close>. The decoder's first
  guard rejects every buffer of fewer than three bytes, so this envelope does not decode,
  although both lengths lie in \<open>[0,255]\<close>.
\<close>

theorem envelope_round_trip_counterexample:
  "length ([] :: bytes) \<le> 255 \<and> encode_envelope [] [] [] = Some [0, 0] \<and>
   decode_envelope [0, 0] = Inl (MalformedEnvelope BlobTooShort)"
  by (simp add: encode_envelope_layout decode_envelope_def)

text \<open>
  Claim C1 (as amended). For every session nonce \<open>n\<close>, IV \<open>iv\<close> and ciphertext \<open>ct\<close> with
  the lengths of \<open>n\<close> and \<open>iv\<close> in \<open>[0,255]\<close> and at least one of the three non-empty (so
  that the envelope has the three bytes the decoder asks for), the envelope built in
  \<^verbatim>\<open>saveCredential\<close> is decoded by the logic of \<^verbatim>\<open>getCredential\<close> to exactly
  \<open>(n, iv, ct)\<close>.
\<close>

theorem envelope_round_trip:
  assumes "length n \<le> 255" and "length iv \<le> 255"
    and "0 < length n + length iv + length ct"
  shows "\<exists>blob. encode_envelope n iv ct = Some blob \<and> decode_envelope blob = Inr (n, iv, ct)"
proof -
  from assms(3) have "n \<noteq> [] \<or> iv \<noteq> [] \<or> ct \<noteq> []" by auto
  from decode_envelope_layout [OF assms(1,2) this] show ?thesis
    by (simp add: encode_envelope_layout)
qed

theorem envelope_round_trip_witness:
  "length [1, 2 :: byte] \<le> 255 \<and> length [3 :: byte] \<le> 255 \<and>
   0 < length [1, 2 :: byte] + length [3 :: byte] + length [4, 5, 6 :: byte] \<and>
   (\<exists>blob. encode_envelope [1, 2] [3] [4, 5, 6] = Some blob \<and>
      decode_envelope blob = Inr ([1, 2], [3], [4, 5, 6]))"
  using envelope_round_trip [of "[1, 2]" "[3]" "[4, 5, 6]"] by simp

text \<open>
  Claim C4. Every buffer shorter than the two header bytes plus the nonce and IV lengths it
  declares is rejected as malformed; decoding never reads an element outside the buffer;
  a failure carries no fields, and a success carries fields of exactly the declared
  lengths, all taken from inside the buffer.
\<close>

theorem decode_malformed:
  "(shorter_than_declared b \<longrightarrow> (\<exists>r. decode_envelope b = Inl (MalformedEnvelope r))) \<and>
   decode_envelope b \<noteq> Inl ReadPastEnd \<and>
   (\<forall>sn iv ct. decode_envelope b = Inr (sn, iv, ct) \<longrightarrow>
      declared_lengths b = Some (length sn, length iv) \<and>
      length b = 2 + length sn + length iv + length ct)"
proof (intro conjI allI impI)
  assume "shorter_than_declared b"
  then show "\<exists>r. decode_envelope b = Inl (MalformedEnvelope r)"
    by (rule shorter_than_declared_fails)
next
  show "decode_envelope b \<noteq> Inl ReadPastEnd" by (rule decode_envelope_no_read_past_end)
next
  fix sn iv ct assume d: "decode_envelope b = Inr (sn, iv, ct)"
  show "declared_lengths b = Some (length sn, length iv)" by (rule decode_envelope_Inr(4) [OF d])
  have "length b = length (of_nat (length sn) # sn @ of_nat (length iv) # iv @ ct :: bytes)"
    using decode_envelope_Inr(1) [OF d] by simp
  then show "length b = 2 + length sn + length iv + length ct" by simp
qed

theorem decode_malformed_witness:
  "shorter_than_declared [2, 7, 8, 3, 9] \<and>
   decode_envelope [2, 7, 8, 3, 9] = Inl (MalformedEnvelope TooShortForIV) \<and>
   decode_envelope [1, 7, 1, 8, 9] = Inr ([7], [8], [9]) \<and>
   declared_lengths [1, 7, 1, 8, 9] = Some (1, 1)"
  using decode_malformed [of "[2, 7, 8, 3, 9]"] decode_malformed [of "[1, 7, 1, 8, 9]"]
  by (simp add: shorter_than_declared_def declared_lengths_def decode_envelope_def read_u8_def
      slice_def)

text \<open>
  Claim C10. The encoder does not enforce the bound of 255: for a session nonce or an IV
  longer than 255 bytes it raises nothing and stores the length modulo 256, so a declared
  length differs from the length of its field and decoding the envelope does not give
  back the nonce, IV and ciphertext that went in.
\<close>

theorem encode_length_byte_wraps:
  assumes "255 < length sn \<or> 255 < length iv"
  shows "\<exists>blob. encode_envelope sn iv ct = Some blob \<and>
           read_u8 blob 0 = Some (length sn mod 256) \<and>
           read_u8 blob (1 + length sn) = Some (length iv mod 256) \<and>
           (length sn mod 256 \<noteq> length sn \<or> length iv mod 256 \<noteq> length iv) \<and>
           decode_envelope blob \<noteq> Inr (sn, iv, ct)"
proof -
  let ?blob = "of_nat (length sn) # sn @ of_nat (length iv) # iv @ ct :: bytes"
  have r0: "read_u8 ?blob 0 = Some (length sn mod 256)"
    by (simp add: read_u8_def unat_of_nat)
  have r1: "read_u8 ?blob (1 + length sn) = Some (length iv mod 256)"
    by (simp add: read_u8_def unat_of_nat nth_append)
  have neq: "length sn mod 256 \<noteq> length sn \<or> length iv mod 256 \<noteq> length iv"
  proof -
    have "length sn mod 256 < 256" and "length iv mod 256 < 256" by simp_all
    with assms show ?thesis by linarith
  qed
  have nd: "decode_envelope ?blob \<noteq> Inr (sn, iv, ct)"
  proof
    assume "decode_envelope ?blob = Inr (sn, iv, ct)"
    from decode_envelope_Inr(2,3) [OF this] assms show False by simp
  qed
  show ?thesis using r0 r1 neq nd by (simp add: encode_envelope_layout)
qed

theorem encode_length_byte_wraps_witness:
  "(255 < length (replicate 256 (7 :: byte)) \<or> 255 < length ([] :: bytes)) \<and>
   (\<exists>blob. encode_envelope (replicate 256 7) [] [9] = Some blob \<and>
      read_u8 blob 0 = Some 0 \<and>
      decode_envelope blob \<noteq> Inr (replicate 256 7, [], [9]))"
proof -
  have h: "255 < length (replicate 256 (7 :: byte)) \<or> 255 < length ([] :: bytes)" by simp
  from encode_length_byte_wraps [OF h, of "[9]"] obtain blob where
    "encode_envelope (replicate 256 7) [] [9] = Some blob"
    "read_u8 blob 0 = Some (length (replicate 256 (7 :: byte)) mod 256)"
    "decode_envelope blob \<noteq> Inr (replicate 256 7, [], [9])"
    by blast
  then show ?thesis using h by auto
qed

section \<open>Facts about the master-key manager\<close>

lemma getMasterKey_InFlight_state:
  assumes "getMasterKey now a rt = (InFlight p, rt1)"
  shows "masterKey (state rt1) = None \<and> isLoading (state rt1) \<and> lastAddress (state rt1) = Some a
         \<and> promise (state rt1) = Some p"
  using assms
  by (auto simp: getMasterKey_def Let_def clearCache_def secureClearKey_def clearTimeout_def
      split: if_splits option.splits)

lemma getMasterKey_InFlight_derivations:
  assumes "getMasterKey now a rt = (InFlight p, rt1)"
  shows "derivations rt1 = derivations rt \<or> derivations rt1 = derivations rt @ [(p, a)]"
  using assms
  by (auto simp: getMasterKey_def Let_def clearCache_def secureClearKey_def clearTimeout_def
      split: if_splits option.splits)

lemma getMasterKey_joins:
  assumes "masterKey (state rt) = None" and "isLoading (state rt)"
    and "lastAddress (state rt) = Some a" and "promise (state rt) = Some p"
  shows "getMasterKey now a rt = (InFlight p, rt)"
  using assms by (simp add: getMasterKey_def shouldClearKey_def)

lemma getMasterKey_calls_join:
  assumes "masterKey (state rt) = None" and "isLoading (state rt)"
    and "lastAddress (state rt) = Some a" and "promise (state rt) = Some p"
  shows "getMasterKey_calls nows a rt = (replicate (length nows) (InFlight p), rt)"
  by (induction nows) (simp_all add: getMasterKey_joins [OF assms])

lemma getMasterKey_recorded_joins:
  assumes "derivation_recorded rt a p"
  shows "getMasterKey now a rt = (InFlight p, rt)"
  using assms by (simp add: derivation_recorded_def getMasterKey_joins)

lemma getMasterKey_InFlight_cases:
  assumes "getMasterKey now a rt = (InFlight p, rt1)"
  shows "(derivation_recorded rt a p \<and> rt1 = rt) \<or>
         ((\<forall>q. \<not> derivation_recorded rt a q) \<and> p = next_handle rt \<and>
          derivations rt1 = derivations rt @ [(p, a)])"
proof (cases "\<exists>q. derivation_recorded rt a q")
  case True
  then obtain q where q: "derivation_recorded rt a q" ..
  from getMasterKey_recorded_joins [OF q, of now] assms have "p = q" "rt1 = rt" by simp_all
  with q show ?thesis by simp
next
  case False
  then have n: "masterKey (state rt) = None \<Longrightarrow> isLoading (state rt) \<Longrightarrow>
      lastAddress (state rt) = Some a \<Longrightarrow> promise (state rt) = None"
    by (cases "promise (state rt)") (auto simp: derivation_recorded_def)
  have "p = next_handle rt \<and> derivations rt1 = derivations rt @ [(p, a)]"
    using assms n
    by (auto simp: getMasterKey_def Let_def clearCache_def secureClearKey_def clearTimeout_def
        split: if_splits option.splits)
  with False show ?thesis by simp
qed

lemma getMasterKey_other_address:
  assumes "derivation_recorded rt a p" and "b \<noteq> a"
  shows "fst (getMasterKey now b rt) = InFlight (next_handle rt) \<and>
         derivations (snd (getMasterKey now b rt)) = derivations rt @ [(next_handle rt, b)]"
  using assms
  by (simp add: derivation_recorded_def getMasterKey_def shouldClearKey_def Let_def clearCache_def
      secureClearKey_def clearTimeout_def split: option.splits)

subsection \<open>Deduplication of derivations\<close>

text \<open>
  What the manager does to join a derivation: a call of \<^verbatim>\<open>getMasterKey\<close> made while a
  derivation for the address is recorded hands back the promise of that derivation and
  leaves the whole state, the log of derivations included, as it is. A call that hands back
  a promise leaves the derivation recorded, so that any number of further calls for the
  address, with nothing else run in between, hand back the same promise and start nothing;
  and it has started exactly one derivation, for this address and under a new promise,
  unless it found a record, in which case it has started none. A call for another address
  does not join: it starts a derivation of its own.
\<close>

lemma getMasterKey_joins_recorded_derivation:
  "(derivation_recorded rt a p \<longrightarrow> getMasterKey now a rt = (InFlight p, rt)) \<and>
   (getMasterKey now a rt = (InFlight p, rt1) \<longrightarrow>
      derivation_recorded rt1 a p \<and>
      getMasterKey_calls nows a rt1 = (replicate (length nows) (InFlight p), rt1) \<and>
      (if \<exists>q. derivation_recorded rt a q then rt1 = rt
       else p = next_handle rt \<and> derivations rt1 = derivations rt @ [(p, a)])) \<and>
   (derivation_recorded rt a p \<and> b \<noteq> a \<longrightarrow>
      fst (getMasterKey now b rt) = InFlight (next_handle rt) \<and>
      derivations (snd (getMasterKey now b rt)) = derivations rt @ [(next_handle rt, b)])"
proof (intro conjI impI)
  assume "derivation_recorded rt a p"
  then show "getMasterKey now a rt = (InFlight p, rt)" by (rule getMasterKey_recorded_joins)
next
  assume g: "getMasterKey now a rt = (InFlight p, rt1)"
  from getMasterKey_InFlight_state [OF g] show r: "derivation_recorded rt1 a p"
    by (simp add: derivation_recorded_def)
  from r show "getMasterKey_calls nows a rt1 = (replicate (length nows) (InFlight p), rt1)"
    unfolding derivation_recorded_def by (intro getMasterKey_calls_join) simp_all
  from getMasterKey_InFlight_cases [OF g]
  show "if \<exists>q. derivation_recorded rt a q then rt1 = rt
        else p = next_handle rt \<and> derivations rt1 = derivations rt @ [(p, a)]"
    by auto
next
  assume h: "derivation_recorded rt a p \<and> b \<noteq> a"
  from getMasterKey_other_address [of rt a p b now] h
  have "fst (getMasterKey now b rt) = InFlight (next_handle rt) \<and>
         derivations (snd (getMasterKey now b rt)) = derivations rt @ [(next_handle rt, b)]"
    by simp
  then show "fst (getMasterKey now b rt) = InFlight (next_handle rt)"
    and "derivations (snd (getMasterKey now b rt)) = derivations rt @ [(next_handle rt, b)]"
    by simp_all
qed

lemma three_calls_one_derivation:
  "fst (run [GetMasterKey 1000 ''0xA'', GetMasterKey 1001 ''0xA'', GetMasterKey 1002 ''0xA'']
          initial_runtime) = [Some (InFlight 1), Some (InFlight 1), Some (InFlight 1)] \<and>
   in_flight [GetMasterKey 1000 ''0xA'', GetMasterKey 1001 ''0xA'', GetMasterKey 1002 ''0xA'']
     initial_runtime = [(1, ''0xA'')]"
  by (simp add: in_flight_def getMasterKey_def initial_runtime_def initial_state_def
      shouldClearKey_def clearCache_def secureClearKey_def Let_def)

subsection \<open>A record cleared on the next tick\<close>

lemma cached_call:
  assumes "masterKey (state rt) = Some k" and "lastAddress (state rt) = Some a"
    and "createdAt (state rt) = Some 1000" and "lastAccessTime (state rt) = Some 1000"
    and "accessCount (state rt) < MAX_ACCESS_COUNT"
  shows "snd (getMasterKey 1000 a rt) =
     rt\<lparr>state := (state rt)\<lparr>accessCount := Suc (accessCount (state rt))\<rparr>\<rparr>"
  using assms
  by (simp add: getMasterKey_def shouldClearKey_def falsy_time_def MAX_KEY_AGE_def IDLE_TIMEOUT_def
      MAX_ACCESS_COUNT_def recordAccess_def Let_def)

lemma cached_calls:
  assumes "masterKey (state rt) = Some k" and "lastAddress (state rt) = Some a"
    and "createdAt (state rt) = Some 1000" and "lastAccessTime (state rt) = Some 1000"
    and "accessCount (state rt) + n \<le> MAX_ACCESS_COUNT"
  shows "snd (run (replicate n (GetMasterKey 1000 a)) rt) =
     rt\<lparr>state := (state rt)\<lparr>accessCount := accessCount (state rt) + n\<rparr>\<rparr>"
  using assms
proof (induction n arbitrary: rt)
  case 0
  then show ?case by simp
next
  case (Suc n)
  let ?rt1 = "rt\<lparr>state := (state rt)\<lparr>accessCount := Suc (accessCount (state rt))\<rparr>\<rparr>"
  from Suc.prems have c: "snd (getMasterKey 1000 a rt) = ?rt1"
    by (intro cached_call) simp_all
  from Suc.prems have "snd (run (replicate n (GetMasterKey 1000 a)) ?rt1) =
     ?rt1\<lparr>state := (state ?rt1)\<lparr>accessCount := accessCount (state ?rt1) + n\<rparr>\<rparr>"
    by (intro Suc.IH) simp_all
  with c show ?case by (simp add: case_prod_unfold Let_def)
qed

lemma run_append: "snd (run (es @ fs) rt) = snd (run fs (snd (run es rt)))"
  by (induction es arbitrary: rt) (simp_all add: case_prod_unfold Let_def)

lemma settled_append: "settled (es @ fs) = settled es @ settled fs"
  by (induction es rule: settled.induct) simp_all

lemma settled_calls: "settled (replicate n (GetMasterKey now a)) = []"
  by (induction n) simp_all

lemma after_resolution:
  "snd (run [GetMasterKey 1000 ''0xA'', DerivationResolved 1 1000 ''key''] initial_runtime) =
     \<lparr>state = \<lparr>masterKey = Some 2, isLoading = False, promise = Some 1,
                lastAddress = Some ''0xA'', createdAt = Some 1000, accessCount = 1,
                lastAccessTime = Some 1000, clearanceTimer = Some 3\<rparr>,
      heap = [2 \<mapsto> stringToSecureArray ''key''], timers = [3 \<mapsto> CheckClearance],
      next_handle = 4, derivations = [(1, ''0xA'')]\<rparr>"
  by (simp add: getMasterKey_def derivation_resolved_def initial_runtime_def initial_state_def
      shouldClearKey_def clearCache_def secureClearKey_def setupClearanceTimer_def setTimeout_def
      recordAccess_def falsy_time_def MAX_KEY_AGE_def IDLE_TIMEOUT_def MAX_ACCESS_COUNT_def Let_def)
    (simp add: numeral_2_eq_2 numeral_3_eq_3)

lemma after_cached_run:
  "snd (run cached_run initial_runtime) =
     \<lparr>state = \<lparr>masterKey = Some 2, isLoading = False, promise = Some 1,
                lastAddress = Some ''0xA'', createdAt = Some 1000, accessCount = 1000,
                lastAccessTime = Some 1000, clearanceTimer = Some 3\<rparr>,
      heap = [2 \<mapsto> stringToSecureArray ''key''], timers = [3 \<mapsto> CheckClearance],
      next_handle = 4, derivations = [(1, ''0xA'')]\<rparr>"
  unfolding cached_run_def run_append after_resolution
  by (subst cached_calls [where k = 2]) (simp_all add: MAX_ACCESS_COUNT_def)

text \<open>
  One address only. The key has been read \<open>MAX_ACCESS_COUNT\<close> times; the next read puts a
  \<^verbatim>\<open>clearCache\<close> off to the next tick (line 129). A call in the same tick finds the key
  worn, clears it and starts a derivation; the timeout then fires and clears the record of
  that derivation, and the call after it starts a second derivation while the first is in
  flight.
\<close>

lemma next_tick_clears_record:
  "in_flight (cached_run @ [GetMasterKey 1000 ''0xA'', GetMasterKey 1000 ''0xA'',
       TimerFired 1000 4]) initial_runtime = [(5, ''0xA'')] \<and>
   in_flight (cached_run @ [GetMasterKey 1000 ''0xA'', GetMasterKey 1000 ''0xA'',
       TimerFired 1000 4, GetMasterKey 1000 ''0xA'']) initial_runtime = [(5, ''0xA''), (6, ''0xA'')]"
  unfolding in_flight_def run_append after_cached_run settled_append
  by (simp add: cached_run_def settled_calls getMasterKey_def timer_fired_def
      shouldClearKey_def clearCache_def secureClearKey_def setTimeout_def clearTimeout_def
      recordAccess_def falsy_time_def MAX_KEY_AGE_def IDLE_TIMEOUT_def MAX_ACCESS_COUNT_def Let_def
      fill_zero_def)

subsection \<open>A record reset by an earlier derivation\<close>

text \<open>
  Claim C6. A call of \<^verbatim>\<open>getMasterKey\<close> for an address that has a derivation in flight, made
  before that derivation resolves, should hand back the promise of that derivation and start
  no second one. The manager looks for the derivation in its record, and the record does not
  last as long as the derivation: the \<^verbatim>\<open>catch\<close> of a derivation (lines 188-193) resets the
  loading flag and the promise without looking whose they are. Here a derivation for one
  address is replaced by a call for a second address and then rejects; the next call for the
  second address, whose derivation is still in flight, finds no record, gets a new promise
  and starts a second derivation for that address.
\<close>

theorem getMasterKey_derives_twice_in_flight:
  "fst (run [GetMasterKey 1000 ''0xA'', GetMasterKey 1001 ''0xB'', DerivationRejected 1,
             GetMasterKey 1002 ''0xB''] initial_runtime) =
     [Some (InFlight 1), Some (InFlight 2), None, Some (InFlight 3)] \<and>
   in_flight [GetMasterKey 1000 ''0xA'', GetMasterKey 1001 ''0xB'', DerivationRejected 1]
     initial_runtime = [(2, ''0xB'')] \<and>
   in_flight [GetMasterKey 1000 ''0xA'', GetMasterKey 1001 ''0xB'', DerivationRejected 1,
              GetMasterKey 1002 ''0xB''] initial_runtime = [(2, ''0xB''), (3, ''0xB'')]"
  by (simp add: in_flight_def getMasterKey_def derivation_rejected_def initial_runtime_def
      initial_state_def shouldClearKey_def clearCache_def secureClearKey_def Let_def)

subsection \<open>Clearing the key\<close>






section \<open>Facts about the persistence manager\<close>

lemma clear_slot_removes: "clear_slot env k st k = None"
  by (simp add: clear_slot_def Let_def split: option.splits)

lemma session_try_cases:
  "session_try env a t sd key st = Inl () \<or>
   session_try env a t sd key st = Inr (None, clearSession env st) \<or>
   (\<exists>s. session_try env a t sd key st = Inr (Some s, st))"
  by (simp add: session_try_def Let_def split: option.splits)

lemma session_try_Some:
  assumes "session_try env a t sd key st = Inr (Some s, st')"
  shows "\<exists>plain. decrypt_with env (stored_data sd) (btoa env key) = Some plain \<and>
           parse_PersistedSession env plain = Some s \<and>
           session_address s = a \<and> session_idToken s = t \<and>
           session_integrity s =
             calculateIntegrity env (stringify_PersistedSession env (s\<lparr>session_integrity := []\<rparr>)) key \<and>
           st' = st"
  using assms by (simp add: session_try_def Let_def split: option.splits if_splits)

lemma getSessionIfValid_cases:
  "getSessionIfValid env now a t st = (None, clearSession env st) \<or>
   (getSessionIfValid env now a t st = (None, st) \<and> (st SESSION_KEY = None \<or> st SESSION_KEY = Some [])) \<or>
   (\<exists>s str. getSessionIfValid env now a t st = (Some s, st) \<and> st SESSION_KEY = Some str \<and>
      session_checks_passed env now a t str s)"
proof (cases "validateSuiAddress a \<and> validateJWT t")
  case False
  then show ?thesis by (auto simp: getSessionIfValid_def Let_def)
next
  case v: True
  show ?thesis
  proof (cases "st SESSION_KEY")
    case None
    with v show ?thesis by (simp add: getSessionIfValid_def Let_def)
  next
    case (Some str)
    note str = this
    show ?thesis
    proof (cases "str = []")
      case True
      with v str show ?thesis by (simp add: getSessionIfValid_def Let_def)
    next
      case ne: False
      show ?thesis
      proof (cases "parse_StoredData env str")
        case None
        with v str ne show ?thesis by (simp add: getSessionIfValid_def Let_def)
      next
        case (Some sd)
        note sd = this
        show ?thesis
        proof (cases "expired now sd")
          case True
          with v str ne sd show ?thesis by (simp add: getSessionIfValid_def Let_def)
        next
          case ex: False
          show ?thesis
          proof (cases "atob env (stored_salt sd)")
            case None
            with v str ne sd ex show ?thesis by (simp add: getSessionIfValid_def Let_def)
          next
            case (Some salt)
            note salt = this
            show ?thesis
            proof (cases "generateEncryptionKey env a t salt")
              case None
              with v str ne sd ex salt show ?thesis by (simp add: getSessionIfValid_def Let_def)
            next
              case (Some key)
              have g: "getSessionIfValid env now a t st =
                  (case session_try env a t sd key st of
                     Inl _ \<Rightarrow> (None, clearSession env st) | Inr r \<Rightarrow> r)"
                using v str ne sd ex salt Some by (simp add: getSessionIfValid_def Let_def)
              from session_try_cases [of env a t sd key st] show ?thesis
              proof (elim disjE exE)
                assume "session_try env a t sd key st = Inl ()"
                with g show ?thesis by simp
              next
                assume "session_try env a t sd key st = Inr (None, clearSession env st)"
                with g show ?thesis by simp
              next
                fix s assume s: "session_try env a t sd key st = Inr (Some s, st)"
                from session_try_Some [OF s] sd ex salt Some
                have "session_checks_passed env now a t str s"
                  unfolding session_checks_passed_def by blast
                with g s str show ?thesis by simp
              qed
            qed
          qed
        qed
      qed
    qed
  qed
qed

lemma credentials_try_cases:
  "credentials_try env sd key st = Inl () \<or>
   credentials_try env sd key st = Inr (None, clearCredentials env st) \<or>
   (\<exists>cs. credentials_try env sd key st = Inr (Some cs, st))"
  by (simp add: credentials_try_def Let_def split: option.splits)

lemma credentials_try_Some:
  assumes "credentials_try env sd key st = Inr (Some cs, st')"
  shows "\<exists>plain cached. decrypt_with env (stored_data sd) (btoa env key) = Some plain \<and>
           parse_PersistedCredentials env plain = Some cached \<and>
           cache_credentials cached = cs \<and>
           cache_integrity cached =
             calculateIntegrity env
               (stringify_PersistedCredentials env (cached\<lparr>cache_integrity := []\<rparr>)) key \<and>
           st' = st"
  using assms by (simp add: credentials_try_def Let_def split: option.splits if_splits)

lemma getCredentials_cases:
  "getCredentials env now mk st = (None, clearCredentials env st) \<or>
   (getCredentials env now mk st = (None, st) \<and>
      (st CREDENTIALS_KEY = None \<or> st CREDENTIALS_KEY = Some [])) \<or>
   (\<exists>cs str. getCredentials env now mk st = (Some cs, st) \<and> st CREDENTIALS_KEY = Some str \<and>
      credentials_checks_passed env now mk str cs)"
proof (cases "st CREDENTIALS_KEY")
  case None
  then show ?thesis by (simp add: getCredentials_def Let_def)
next
  case (Some str)
  note str = this
  show ?thesis
  proof (cases "str = []")
    case True
    with str show ?thesis by (simp add: getCredentials_def Let_def)
  next
    case ne: False
    show ?thesis
    proof (cases "parse_StoredData env str")
      case None
      with str ne show ?thesis by (simp add: getCredentials_def Let_def)
    next
      case (Some sd)
      note sd = this
      show ?thesis
      proof (cases "expired now sd")
        case True
        with str ne sd show ?thesis by (simp add: getCredentials_def Let_def)
      next
        case ex: False
        show ?thesis
        proof (cases "atob env (stored_salt sd)")
          case None
          with str ne sd ex show ?thesis by (simp add: getCredentials_def Let_def)
        next
          case (Some salt)
          note salt = this
          show ?thesis
          proof (cases "deriveKey env mk salt (stored_iterations sd)")
            case None
            with str ne sd ex salt show ?thesis by (simp add: getCredentials_def Let_def)
          next
            case (Some key)
            have g: "getCredentials env now mk st =
                (case credentials_try env sd key st of
                   Inl _ \<Rightarrow> (None, clearCredentials env st) | Inr r \<Rightarrow> r)"
              using str ne sd ex salt Some by (simp add: getCredentials_def Let_def)
            from credentials_try_cases [of env sd key st] show ?thesis
            proof (elim disjE exE)
              assume "credentials_try env sd key st = Inl ()"
              with g show ?thesis by simp
            next
              assume "credentials_try env sd key st = Inr (None, clearCredentials env st)"
              with g show ?thesis by simp
            next
              fix cs assume s: "credentials_try env sd key st = Inr (Some cs, st)"
              from credentials_try_Some [OF s] sd ex salt Some
              have "credentials_checks_passed env now mk str cs"
                unfolding credentials_checks_passed_def by blast
              with g s str show ?thesis by simp
            qed
          qed
        qed
      qed
    qed
  qed
qed

text \<open>
  Claim C8. Loading fails closed, for the session and for the cached credentials alike.
  A load that hands back data has passed every check (the stored record parsed and had not
  expired, the data decrypted under the derived key, the digest inside matched) and leaves
  the storage as it was. Hence a load during which decryption fails, the record has
  expired or the digest differs returns \<^verbatim>\<open>null\<close>; and every load of a stored record that
  returns \<^verbatim>\<open>null\<close> has deleted the record. A tampered record therefore yields
  \<^verbatim>\<open>null\<close> and is wiped, unless it still passes every check.
\<close>

theorem load_fails_closed:
  "(fst (getSessionIfValid env now a t ls) = None \<and> ls SESSION_KEY = Some str \<and> str \<noteq> []
      \<longrightarrow> snd (getSessionIfValid env now a t ls) SESSION_KEY = None) \<and>
   (fst (getSessionIfValid env now a t ls) = Some s
      \<longrightarrow> (\<exists>str'. ls SESSION_KEY = Some str' \<and> session_checks_passed env now a t str' s) \<and>
          snd (getSessionIfValid env now a t ls) = ls) \<and>
   (fst (getCredentials env now mk ss) = None \<and> ss CREDENTIALS_KEY = Some str \<and> str \<noteq> []
      \<longrightarrow> snd (getCredentials env now mk ss) CREDENTIALS_KEY = None) \<and>
   (fst (getCredentials env now mk ss) = Some cs
      \<longrightarrow> (\<exists>str'. ss CREDENTIALS_KEY = Some str' \<and> credentials_checks_passed env now mk str' cs) \<and>
          snd (getCredentials env now mk ss) = ss)"
proof -
  have c1: "clearSession env ls SESSION_KEY = None"
    by (simp add: clearSession_def clear_slot_removes)
  have c2: "clearCredentials env ss CREDENTIALS_KEY = None"
    by (simp add: clearCredentials_def clear_slot_removes)
  from getSessionIfValid_cases [of env now a t ls] c1
  have p1: "fst (getSessionIfValid env now a t ls) = None \<and> ls SESSION_KEY = Some str \<and> str \<noteq> []
      \<longrightarrow> snd (getSessionIfValid env now a t ls) SESSION_KEY = None"
    by auto
  from getSessionIfValid_cases [of env now a t ls]
  have p2: "fst (getSessionIfValid env now a t ls) = Some s
      \<longrightarrow> (\<exists>str'. ls SESSION_KEY = Some str' \<and> session_checks_passed env now a t str' s) \<and>
          snd (getSessionIfValid env now a t ls) = ls"
    by auto
  from getCredentials_cases [of env now mk ss] c2
  have p3: "fst (getCredentials env now mk ss) = None \<and> ss CREDENTIALS_KEY = Some str \<and> str \<noteq> []
      \<longrightarrow> snd (getCredentials env now mk ss) CREDENTIALS_KEY = None"
    by auto
  from getCredentials_cases [of env now mk ss]
  have p4: "fst (getCredentials env now mk ss) = Some cs
      \<longrightarrow> (\<exists>str'. ss CREDENTIALS_KEY = Some str' \<and> credentials_checks_passed env now mk str' cs) \<and>
          snd (getCredentials env now mk ss) = ss"
    by auto
  from p1 p2 p3 p4 show ?thesis by blast
qed

subsection \<open>The manager run in the small environment\<close>

lemmas example_defs = example_env_def example_stored_def example_session_def example_cache_def
  getSessionIfValid_def getCredentials_def session_try_def credentials_try_def
  validateJWT_def is_hex_char_def is_js_whitespace_def expired_def
  generateEncryptionKey_def deriveKey_def calculateIntegrity_def hex_byte_def hex_digit_def
  utf8_def clearSession_def clearCredentials_def clear_slot_def SESSION_KEY_def CREDENTIALS_KEY_def
  PBKDF2_ITERATIONS_def Let_def

lemma example_address_valid: "validateSuiAddress example_address"
  by (simp add: validateSuiAddress_def example_address_def is_hex_char_def list_all_iff)

theorem load_fails_closed_witness:
  "fst (getSessionIfValid example_env 1500 example_address ''token''
          [SESSION_KEY \<mapsto> ''stored'']) = Some example_session \<and>
   fst (getSessionIfValid example_env 2500 example_address ''token''
          [SESSION_KEY \<mapsto> ''stored'']) = None \<and>
   snd (getSessionIfValid example_env 2500 example_address ''token''
          [SESSION_KEY \<mapsto> ''stored'']) SESSION_KEY = None \<and>
   fst (getCredentials example_env 1500 ''km'' [CREDENTIALS_KEY \<mapsto> ''storeX'']) = None \<and>
   snd (getCredentials example_env 1500 ''km'' [CREDENTIALS_KEY \<mapsto> ''storeX'']) CREDENTIALS_KEY
     = None \<and>
   fst (getCredentials example_env 1500 ''km'' [CREDENTIALS_KEY \<mapsto> ''stored''])
     = Some (cache_credentials example_cache)"
proof -
  have a: "fst (getSessionIfValid example_env 1500 example_address ''token''
          [SESSION_KEY \<mapsto> ''stored'']) = Some example_session"
    by (simp add: example_defs example_address_valid)
  have b: "fst (getSessionIfValid example_env 2500 example_address ''token''
          [SESSION_KEY \<mapsto> ''stored'']) = None"
    by (simp add: example_defs example_address_valid)
  have c: "fst (getCredentials example_env 1500 ''km'' [CREDENTIALS_KEY \<mapsto> ''storeX'']) = None"
    by (simp add: example_defs example_address_valid)
  have d: "fst (getCredentials example_env 1500 ''km'' [CREDENTIALS_KEY \<mapsto> ''stored''])
     = Some (cache_credentials example_cache)"
    by (simp add: example_defs example_address_valid)
  from load_fails_closed [of example_env 2500 example_address "''token''"
      "[SESSION_KEY \<mapsto> ''stored'']" "''stored''" example_session "''km''"
      "[CREDENTIALS_KEY \<mapsto> ''storeX'']" "cache_credentials example_cache"] b
  have e: "snd (getSessionIfValid example_env 2500 example_address ''token''
          [SESSION_KEY \<mapsto> ''stored'']) SESSION_KEY = None" by simp
  from load_fails_closed [of example_env 1500 example_address "''token''"
      "[SESSION_KEY \<mapsto> ''stored'']" "''storeX''" example_session "''km''"
      "[CREDENTIALS_KEY \<mapsto> ''storeX'']" "cache_credentials example_cache"] c
  have f: "snd (getCredentials example_env 1500 ''km'' [CREDENTIALS_KEY \<mapsto> ''storeX''])
      CREDENTIALS_KEY = None" by simp
  from a b c d e f show ?thesis by simp
qed

section \<open>Facts about the vault orchestrator\<close>

lemma length_utf8: "length (utf8 s) = length s"
  by (simp add: utf8_def)

lemma text_decode_utf8: "text_decode (utf8 s) = s"
proof -
  have "char_of (unat (of_nat (of_char c) :: byte)) = c" for c :: char
    by (simp add: unat_of_nat)
  then show ?thesis by (simp add: text_decode_def utf8_def comp_def)
qed

lemma map_set_lookup: "map_of (map_set m k v) = (map_of m)(k \<mapsto> v)"
  by (induction m) (auto simp: fun_eq_iff)

lemma map_set_keys: "fst ` set (map_set m k v) = insert k (fst ` set m)"
proof (induction m)
  case Nil
  then show ?case by simp
next
  case (Cons e m)
  obtain k' v' where e: "e = (k', v')" by (cases e)
  show ?case
  proof (cases "k' = k")
    case True
    then show ?thesis by (simp add: e)
  next
    case False
    then show ?thesis using Cons.IH by (simp add: e insert_commute)
  qed
qed

lemma map_set_distinct: "distinct (map fst m) \<Longrightarrow> distinct (map fst (map_set m k v))"
  by (induction m) (auto simp: map_set_keys)

lemma fill_blobMap_map_of:
  "map_of (fill_blobMap m (map (\<lambda>k. (k, f k)) ks)) =
     (\<lambda>k. if k \<in> set ks \<and> f k \<noteq> None then f k else map_of m k)"
proof (induction ks arbitrary: m)
  case Nil
  then show ?case by (simp add: fill_blobMap_def)
next
  case (Cons k ks)
  have step: "fill_blobMap m (map (\<lambda>k. (k, f k)) (k # ks)) =
      fill_blobMap (case f k of Some bs \<Rightarrow> map_set m k bs | None \<Rightarrow> m) (map (\<lambda>k. (k, f k)) ks)"
    by (simp add: fill_blobMap_def)
  show ?case
    unfolding step Cons.IH
    by (cases "f k") (auto simp: fun_eq_iff map_set_lookup)
qed

lemma fill_blobMap_distinct:
  "distinct (map fst m) \<Longrightarrow> distinct (map fst (fill_blobMap m results))"
proof (induction results arbitrary: m)
  case Nil
  then show ?case by (simp add: fill_blobMap_def)
next
  case (Cons r rs)
  obtain k d where r: "r = (k, d)" by (cases r)
  have step: "fill_blobMap m (r # rs) =
      fill_blobMap (case d of Some bs \<Rightarrow> map_set m k bs | None \<Rightarrow> m) rs"
    by (simp add: fill_blobMap_def r)
  show ?case
    unfolding step using Cons.prems
    by (intro Cons.IH) (auto split: option.splits intro: map_set_distinct)
qed

lemma retrieveBlobs_fill_blobMap:
  "retrieveBlobs w blobIds = fill_blobMap [] (map (\<lambda>k. (k, blob_store w k)) blobIds)"
  by (simp add: retrieveBlobs_def retrieveBlob_def)

lemma retrieveBlobs_distinct: "distinct (map fst (retrieveBlobs w blobIds))"
  unfolding retrieveBlobs_fill_blobMap by (rule fill_blobMap_distinct) simp

lemma retrieveBlobs_set:
  "(blobId, bs) \<in> set (retrieveBlobs w blobIds) \<longleftrightarrow> blobId \<in> set blobIds \<and> blob_store w blobId = Some bs"
proof -
  have "(blobId, bs) \<in> set (retrieveBlobs w blobIds) \<longleftrightarrow>
        map_of (retrieveBlobs w blobIds) blobId = Some bs"
    using retrieveBlobs_distinct [of w blobIds] by simp
  also have "\<dots> \<longleftrightarrow> blobId \<in> set blobIds \<and> blob_store w blobId = Some bs"
    unfolding retrieveBlobs_fill_blobMap fill_blobMap_map_of by auto
  finally show ?thesis .
qed

lemma collect_credentials_fst:
  "set (fst (collect_credentials env pick KM blobMap (credentials, console))) =
     set credentials \<union>
     {c. \<exists>blobId bs. (blobId, bs) \<in> set blobMap \<and> process_blob env pick KM bs = Decoded c}"
proof (induction blobMap arbitrary: credentials console)
  case Nil
  then show ?case by simp
next
  case (Cons entry blobMap)
  obtain blobId bs where e: "entry = (blobId, bs)" by (cases entry)
  show ?case
  proof (cases "process_blob env pick KM bs")
    case (Decoded c)
    then show ?thesis unfolding e by (auto simp: Cons.IH)
  next
    case (Skipped r)
    then show ?thesis unfolding e by (auto simp: Cons.IH)
  qed
qed

lemma collect_credentials_snd:
  "set (snd (collect_credentials env pick KM blobMap (credentials, console))) =
     set console \<union>
     {m. \<exists>blobId bs r. (blobId, bs) \<in> set blobMap \<and> process_blob env pick KM bs = Skipped r \<and>
        m = BlobSkipped blobId r}"
proof (induction blobMap arbitrary: credentials console)
  case Nil
  then show ?case by simp
next
  case (Cons entry blobMap)
  obtain blobId bs where e: "entry = (blobId, bs)" by (cases entry)
  show ?case
  proof (cases "process_blob env pick KM bs")
    case (Decoded c)
    then show ?thesis unfolding e by (auto simp: Cons.IH)
  next
    case (Skipped r)
    then show ?thesis unfolding e by (auto simp: Cons.IH)
  qed
qed

lemma fetch_and_decrypt_characterised:
  "\<exists>creds. fst (fetch_and_decrypt env w pick KM blobIds) = (if creds = [] then None else Some creds) \<and>
     (\<forall>c. c \<in> set creds \<longleftrightarrow>
        (\<exists>blobId \<in> set blobIds. \<exists>bs. blob_store w blobId = Some bs \<and>
           process_blob env pick KM bs = Decoded c))"
proof -
  let ?creds = "fst (collect_credentials env pick KM (retrieveBlobs w blobIds) ([], []))"
  have set_creds: "c \<in> set ?creds \<longleftrightarrow>
        (\<exists>blobId \<in> set blobIds. \<exists>bs. blob_store w blobId = Some bs \<and>
           process_blob env pick KM bs = Decoded c)" for c
    by (auto simp: collect_credentials_fst retrieveBlobs_set)
  have "fst (fetch_and_decrypt env w pick KM blobIds) = (if ?creds = [] then None else Some ?creds)"
  proof (cases "blobIds = [] \<or> retrieveBlobs w blobIds = []")
    case True
    then have "?creds = []"
    proof
      assume "blobIds = []"
      then show ?thesis by (simp add: retrieveBlobs_def fill_blobMap_def)
    next
      assume "retrieveBlobs w blobIds = []"
      then show ?thesis by simp
    qed
    with True show ?thesis by (auto simp: fetch_and_decrypt_def Let_def)
  next
    case False
    then show ?thesis by (simp add: fetch_and_decrypt_def Let_def case_prod_unfold)
  qed
  with set_creds show ?thesis by blast
qed

lemma fetch_and_decrypt_console:
  "set (snd (fetch_and_decrypt env w pick KM blobIds)) \<subseteq>
     {NoBlobIdsFound, NoBlobsRetrieved, NoValidCredentialsDecrypted} \<union> range ReturningCredentials \<union>
     {m. \<exists>blobId bs r. m = BlobSkipped blobId r}"
  by (auto simp: fetch_and_decrypt_def Let_def case_prod_unfold collect_credentials_snd)

lemma fetch_and_decrypt_warns:
  assumes "blobId \<in> set blobIds" and "blob_store w blobId = Some bs"
    and "process_blob env pick KM bs = Skipped r"
  shows "BlobSkipped blobId r \<in> set (snd (fetch_and_decrypt env w pick KM blobIds))"
proof -
  from assms(1,2) have m: "(blobId, bs) \<in> set (retrieveBlobs w blobIds)"
    by (simp add: retrieveBlobs_set)
  then have ne: "retrieveBlobs w blobIds \<noteq> []" by auto
  from assms(1) have ne': "blobIds \<noteq> []" by auto
  from m assms(3) have "BlobSkipped blobId r \<in>
      set (snd (collect_credentials env pick KM (retrieveBlobs w blobIds) ([], [])))"
    unfolding collect_credentials_snd by blast
  with ne ne' show ?thesis
    by (simp add: fetch_and_decrypt_def Let_def case_prod_unfold)
qed

lemma fetch_and_decrypt_nothing_decoded:
  assumes "fst (fetch_and_decrypt env w pick KM blobIds) = None"
  shows "last (snd (fetch_and_decrypt env w pick KM blobIds)) \<in>
     {NoBlobIdsFound, NoBlobsRetrieved, NoValidCredentialsDecrypted}"
  using assms
  by (auto simp: fetch_and_decrypt_def Let_def case_prod_unfold split: if_splits)

lemma try_parse_blob_ids_Some_iff:
  "try_parse_blob_ids env d = Some ids \<longleftrightarrow>
     (\<exists>xs. json_parse env (text_decode d) = Some (JArray xs) \<and> list_all is_blob_id xs \<and>
        ids = map the_string xs)"
proof (cases "json_parse env (text_decode d)")
  case None
  then show ?thesis by (simp add: try_parse_blob_ids_def)
next
  case (Some parsed)
  then show ?thesis by (cases parsed) (auto simp: try_parse_blob_ids_def)
qed

lemma getCredential_found:
  assumes "vaults w address = Some vaultId"
    and "entries w (vaultId, hashDomain env domain' KM) = Some info"
  shows "getCredential env w domain' KM address =
     (case try_parse_blob_ids env (info_data info) of
        None \<Rightarrow> (legacy_decrypt env info domain' KM, [FallingBackToOnChainDecrypt])
      | Some blobIds \<Rightarrow>
          (Inr (fst (fetch_and_decrypt env w (\<lambda>_. domain') KM blobIds)),
           snd (fetch_and_decrypt env w (\<lambda>_. domain') KM blobIds)))"
  using assms
  by (simp add: getCredential_def getUserVaultId_def checkCredentialExists_def
      getCredentialInfoFromDynamicField_def case_prod_unfold Let_def split: option.split)

lemma getCredentialByDomainHash_found:
  assumes "vaults w address = Some vaultId"
    and "entries w (vaultId, domainHash) = Some info"
  shows "getCredentialByDomainHash env w domainHash KM address =
     (case try_parse_blob_ids env (info_data info) of
        None \<Rightarrow> (legacy_decrypt_by_hash env info KM, [FallingBackToOnChainDecrypt])
      | Some blobIds \<Rightarrow>
          (Inr (fst (fetch_and_decrypt env w (domain_or_unknown env) KM blobIds)),
           snd (fetch_and_decrypt env w (domain_or_unknown env) KM blobIds)))"
  using assms
  by (simp add: getCredentialByDomainHash_def getUserVaultId_def checkCredentialExists_def
      getCredentialInfoFromDynamicField_def case_prod_unfold Let_def split: option.split)

lemma getCredential_no_record:
  assumes "vaults w address = None \<or>
     (\<exists>vaultId. vaults w address = Some vaultId \<and> entries w (vaultId, hashDomain env domain' KM) = None)"
  shows "fst (getCredential env w domain' KM address) = Inr None \<and>
     snd (getCredential env w domain' KM address) \<in> {[NoVaultFound], [CredentialDoesNotExist]}"
  using assms
  by (auto simp: getCredential_def getUserVaultId_def checkCredentialExists_def
      getCredentialInfoFromDynamicField_def)

lemma getCredential_value_found:
  assumes "vaults w address = Some vaultId"
    and "entries w (vaultId, hashDomain env domain' KM) = Some info"
  shows "fst (getCredential env w domain' KM address) =
     (case try_parse_blob_ids env (info_data info) of
        None \<Rightarrow> legacy_decrypt env info domain' KM
      | Some blobIds \<Rightarrow> Inr (fst (fetch_and_decrypt env w (\<lambda>_. domain') KM blobIds)))"
  by (simp add: getCredential_found [OF assms] split: option.split)

lemma getCredentialByDomainHash_value_found:
  assumes "vaults w address = Some vaultId"
    and "entries w (vaultId, domainHash) = Some info"
  shows "fst (getCredentialByDomainHash env w domainHash KM address) =
     (case try_parse_blob_ids env (info_data info) of
        None \<Rightarrow> legacy_decrypt_by_hash env info KM
      | Some blobIds \<Rightarrow> Inr (fst (fetch_and_decrypt env w (domain_or_unknown env) KM blobIds)))"
  by (simp add: getCredentialByDomainHash_found [OF assms] split: option.split)

subsection \<open>Format detection\<close>

text \<open>
  A payload that is the empty array passes the test of the \<^verbatim>\<open>try\<close> block
  (\<^verbatim>\<open>every\<close> holds of no elements), so the record is current: \<^verbatim>\<open>getCredential\<close> finds no
  blob ids and returns \<^verbatim>\<open>null\<close>, where the legacy path would have thrown.
\<close>

theorem format_detection_counterexample:
  "json_parse example_vault_env (text_decode (utf8 ''[]'')) = Some (JArray []) \<and>
   \<not> spec_current_payload (Some (JArray [])) \<and>
   try_parse_blob_ids example_vault_env (utf8 ''[]'') = Some [] \<and>
   getCredential example_vault_env (world_with_payload ''[]'' Map.empty)
     ''example.com'' ''km'' ''0xA'' = (Inr None, [NoBlobIdsFound]) \<and>
   legacy_decrypt example_vault_env
     \<lparr>info_data = utf8 ''[]'', info_entryNonce = [], info_sessionNonce = []\<rparr>
     ''example.com'' ''km'' = Inl DeriveKSThrew"
  by (simp add: text_decode_utf8 example_vault_env_def example_parse_def spec_current_payload_def
      try_parse_blob_ids_def getCredential_def getUserVaultId_def checkCredentialExists_def
      getCredentialInfoFromDynamicField_def world_with_payload_def fetch_and_decrypt_def
      legacy_decrypt_def spread_throws_def length_utf8)

text \<open>
  Claim C3 (as amended). The current format is tried first: a record is current exactly
  when its payload parses as a JSON array, empty or not, whose every element is a non-empty
  string, and its blob ids are those strings. Every other payload, one that does not parse
  included, sends \<^verbatim>\<open>getCredential\<close> and \<^verbatim>\<open>getCredentialByDomainHash\<close> down the legacy
  path, which decrypts the payload with the nonces of the record; the classification itself
  raises nothing.
\<close>

theorem format_detection:
  "(try_parse_blob_ids env (info_data info) = Some ids \<longleftrightarrow>
      (\<exists>xs. json_parse env (text_decode (info_data info)) = Some (JArray xs) \<and>
         list_all is_blob_id xs \<and> ids = map the_string xs)) \<and>
   (vaults w address = Some vaultId \<and>
    entries w (vaultId, hashDomain env domain' KM) = Some info \<longrightarrow>
      fst (getCredential env w domain' KM address) =
        (case try_parse_blob_ids env (info_data info) of
           None \<Rightarrow> legacy_decrypt env info domain' KM
         | Some blobIds \<Rightarrow> Inr (fst (fetch_and_decrypt env w (\<lambda>_. domain') KM blobIds)))) \<and>
   (vaults w address = Some vaultId \<and> entries w (vaultId, domainHash) = Some info \<longrightarrow>
      fst (getCredentialByDomainHash env w domainHash KM address) =
        (case try_parse_blob_ids env (info_data info) of
           None \<Rightarrow> legacy_decrypt_by_hash env info KM
         | Some blobIds \<Rightarrow>
             Inr (fst (fetch_and_decrypt env w (domain_or_unknown env) KM blobIds))))"
  using try_parse_blob_ids_Some_iff [of env "info_data info" ids]
    getCredential_value_found [of w address vaultId env domain' KM info]
    getCredentialByDomainHash_value_found [of w address vaultId domainHash info env KM]
  by blast

theorem format_detection_witness:
  "try_parse_blob_ids example_vault_env (info_data legacy_info) = None \<and>
   vaults (world_with_payload ''ciphertext'' Map.empty) ''0xA'' = Some ''vault1'' \<and>
   entries (world_with_payload ''ciphertext'' Map.empty)
     (''vault1'', hashDomain example_vault_env ''example.com'' ''km'') = Some legacy_info \<and>
   fst (getCredential example_vault_env (world_with_payload ''ciphertext'' Map.empty)
     ''example.com'' ''km'' ''0xA'') = legacy_decrypt example_vault_env legacy_info ''example.com'' ''km'' \<and>
   fst (getCredentialByDomainHash example_vault_env (world_with_payload ''ciphertext'' Map.empty)
     (utf8 ''example.com'') ''km'' ''0xA'') = legacy_decrypt_by_hash example_vault_env legacy_info ''km''"
proof -
  have p: "try_parse_blob_ids example_vault_env (info_data legacy_info) = None"
    by (simp add: legacy_info_def try_parse_blob_ids_def text_decode_utf8 example_vault_env_def
        example_parse_def)
  have v: "vaults (world_with_payload ''ciphertext'' Map.empty) ''0xA'' = Some ''vault1''"
    by (simp add: world_with_payload_def)
  have e: "entries (world_with_payload ''ciphertext'' Map.empty)
     (''vault1'', hashDomain example_vault_env ''example.com'' ''km'') = Some legacy_info"
    by (simp add: world_with_payload_def example_vault_env_def legacy_info_def)
  have e': "entries (world_with_payload ''ciphertext'' Map.empty)
     (''vault1'', utf8 ''example.com'') = Some legacy_info"
    by (simp add: world_with_payload_def legacy_info_def)
  from format_detection [of example_vault_env legacy_info "[]"
      "world_with_payload ''ciphertext'' Map.empty" "''0xA''" "''vault1''" "''example.com''" "''km''"
      "utf8 ''example.com''"] p v e e'
  show ?thesis by simp
qed

subsection \<open>Reading a record with several blobs\<close>

lemma alice_blob_decodes: "decode_envelope alice_blob = Inr ([9], [1, 2, 3], utf8 ''{alice}'')"
  using decode_envelope_layout [of "[9]" "[1, 2, 3]" "utf8 ''{alice}''"]
  by (simp add: alice_blob_def encode_envelope_layout)

lemma process_alice_blob:
  "process_blob example_vault_env (\<lambda>_. ''example.com'') ''km'' alice_blob = Decoded alice"
  by (simp add: process_blob_def alice_blob_decodes example_vault_env_def text_decode_utf8
      spread_throws_def length_utf8
      example_parse_def checked_credential_def get_property_def credential_json_def alice_def
      nonempty_string_def the_string_def)

lemma process_short_blob:
  "process_blob example_vault_env (\<lambda>_. ''example.com'') ''km'' [0, 0] =
     Skipped (BadEnvelope (MalformedEnvelope BlobTooShort))"
  by (simp add: process_blob_def decode_envelope_def)

text \<open>
  A ledger with no record for the domain, and one whose record points at a single blob that
  is too short to be an envelope: \<^verbatim>\<open>getCredential\<close> returns \<^verbatim>\<open>null\<close> for both, so its
  caller cannot tell a record with nothing decodable from no record. The two runs differ
  in what they write to the console only.
\<close>

theorem getCredential_partial_failure_counterexample:
  "getCredential example_vault_env empty_world ''example.com'' ''km'' ''0xA'' =
     (Inr None, [NoVaultFound]) \<and>
   entries (world_with_payload ''[b1]'' [''b1'' \<mapsto> [0, 0]]) (''vault1'', utf8 ''example.com'') \<noteq> None \<and>
   getCredential example_vault_env (world_with_payload ''[b1]'' [''b1'' \<mapsto> [0, 0]])
     ''example.com'' ''km'' ''0xA'' =
     (Inr None,
      [BlobSkipped ''b1'' (BadEnvelope (MalformedEnvelope BlobTooShort)),
       NoValidCredentialsDecrypted]) \<and>
   fst (getCredential example_vault_env empty_world ''example.com'' ''km'' ''0xA'') =
   fst (getCredential example_vault_env (world_with_payload ''[b1]'' [''b1'' \<mapsto> [0, 0]])
     ''example.com'' ''km'' ''0xA'')"
  by (simp add: getCredential_def getUserVaultId_def checkCredentialExists_def
      getCredentialInfoFromDynamicField_def empty_world_def world_with_payload_def
      example_vault_env_def try_parse_blob_ids_def text_decode_utf8 example_parse_def
      is_blob_id_def the_string_def fetch_and_decrypt_def retrieveBlobs_def retrieveBlob_def
      fill_blobMap_def process_short_blob [unfolded example_vault_env_def])

text \<open>
  Claim C5 (as amended). For a domain whose record is in the current format,
  \<^verbatim>\<open>getCredential\<close> raises nothing: every blob that is not retrieved, is malformed, does
  not decrypt or does not hold a credential is skipped, a retrieved one with a message on
  the console that names it, and the credentials of exactly the other blobs are returned as
  a list, provided there is at least one. When no blob decodes the value returned is
  \<^verbatim>\<open>null\<close>, which is also the value returned when there is no vault or no record: the two
  cases differ in the last message on the console, not in what the caller receives.
\<close>

theorem getCredential_partial_failure:
  "(vaults w address = Some vaultId \<and>
    entries w (vaultId, hashDomain env domain' KM) = Some info \<and>
    try_parse_blob_ids env (info_data info) = Some blobIds \<longrightarrow>
      (\<exists>creds.
         fst (getCredential env w domain' KM address) = Inr (if creds = [] then None else Some creds) \<and>
         (\<forall>c. c \<in> set creds \<longleftrightarrow>
            (\<exists>blobId \<in> set blobIds. \<exists>bs. blob_store w blobId = Some bs \<and>
               process_blob env (\<lambda>_. domain') KM bs = Decoded c)) \<and>
         (\<forall>blobId bs r. blobId \<in> set blobIds \<and> blob_store w blobId = Some bs \<and>
            process_blob env (\<lambda>_. domain') KM bs = Skipped r \<longrightarrow>
              BlobSkipped blobId r \<in> set (snd (getCredential env w domain' KM address))) \<and>
         (creds = [] \<longrightarrow>
            last (snd (getCredential env w domain' KM address)) \<in>
              {NoBlobIdsFound, NoBlobsRetrieved, NoValidCredentialsDecrypted}))) \<and>
   (vaults w address = None \<or>
    (\<exists>v. vaults w address = Some v \<and> entries w (v, hashDomain env domain' KM) = None) \<longrightarrow>
      fst (getCredential env w domain' KM address) = Inr None \<and>
      snd (getCredential env w domain' KM address) \<in> {[NoVaultFound], [CredentialDoesNotExist]})"
proof (intro conjI impI)
  let ?f = "fetch_and_decrypt env w (\<lambda>_. domain') KM blobIds"
  assume a: "vaults w address = Some vaultId \<and>
    entries w (vaultId, hashDomain env domain' KM) = Some info \<and>
    try_parse_blob_ids env (info_data info) = Some blobIds"
  then have g: "getCredential env w domain' KM address = (Inr (fst ?f), snd ?f)"
    by (simp add: getCredential_found)
  from fetch_and_decrypt_characterised [of env w "\<lambda>_. domain'" KM blobIds]
  obtain creds where v: "fst ?f = (if creds = [] then None else Some creds)"
    and m: "\<forall>c. c \<in> set creds \<longleftrightarrow>
            (\<exists>blobId \<in> set blobIds. \<exists>bs. blob_store w blobId = Some bs \<and>
               process_blob env (\<lambda>_. domain') KM bs = Decoded c)"
    by blast
  have warned: "\<forall>blobId bs r. blobId \<in> set blobIds \<and> blob_store w blobId = Some bs \<and>
            process_blob env (\<lambda>_. domain') KM bs = Skipped r \<longrightarrow>
              BlobSkipped blobId r \<in> set (snd (getCredential env w domain' KM address))"
    unfolding g by (simp add: fetch_and_decrypt_warns)
  have anomaly: "creds = [] \<longrightarrow>
      last (snd (getCredential env w domain' KM address)) \<in>
        {NoBlobIdsFound, NoBlobsRetrieved, NoValidCredentialsDecrypted}"
  proof
    assume "creds = []"
    with v have "fst ?f = None" by simp
    then show "last (snd (getCredential env w domain' KM address)) \<in>
        {NoBlobIdsFound, NoBlobsRetrieved, NoValidCredentialsDecrypted}"
      unfolding g snd_conv by (rule fetch_and_decrypt_nothing_decoded)
  qed
  from v have "fst (getCredential env w domain' KM address) =
      Inr (if creds = [] then None else Some creds)"
    unfolding g by simp
  with m warned anomaly
  show "\<exists>creds.
         fst (getCredential env w domain' KM address) = Inr (if creds = [] then None else Some creds) \<and>
         (\<forall>c. c \<in> set creds \<longleftrightarrow>
            (\<exists>blobId \<in> set blobIds. \<exists>bs. blob_store w blobId = Some bs \<and>
               process_blob env (\<lambda>_. domain') KM bs = Decoded c)) \<and>
         (\<forall>blobId bs r. blobId \<in> set blobIds \<and> blob_store w blobId = Some bs \<and>
            process_blob env (\<lambda>_. domain') KM bs = Skipped r \<longrightarrow>
              BlobSkipped blobId r \<in> set (snd (getCredential env w domain' KM address))) \<and>
         (creds = [] \<longrightarrow>
            last (snd (getCredential env w domain' KM address)) \<in>
              {NoBlobIdsFound, NoBlobsRetrieved, NoValidCredentialsDecrypted})"
    by blast
next
  assume n: "vaults w address = None \<or>
    (\<exists>v. vaults w address = Some v \<and> entries w (v, hashDomain env domain' KM) = None)"
  from getCredential_no_record [OF n]
  show "fst (getCredential env w domain' KM address) = Inr None" by simp
  from getCredential_no_record [OF n]
  show "snd (getCredential env w domain' KM address) \<in> {[NoVaultFound], [CredentialDoesNotExist]}"
    by simp
qed

theorem getCredential_partial_failure_witness:
  "process_blob example_vault_env (\<lambda>_. ''example.com'') ''km'' [0, 0] =
     Skipped (BadEnvelope (MalformedEnvelope BlobTooShort)) \<and>
   getCredential example_vault_env
     (world_with_payload ''[b1,b2]'' [''b1'' \<mapsto> [0, 0], ''b2'' \<mapsto> alice_blob])
     ''example.com'' ''km'' ''0xA'' =
     (Inr (Some [alice]),
      [BlobSkipped ''b1'' (BadEnvelope (MalformedEnvelope BlobTooShort)), ReturningCredentials 1]) \<and>
   getCredential example_vault_env empty_world ''example.com'' ''km'' ''0xA'' =
     (Inr None, [NoVaultFound])"
proof -
  let ?w = "world_with_payload ''[b1,b2]'' [''b1'' \<mapsto> [0, 0], ''b2'' \<mapsto> alice_blob]"
  let ?info = "\<lparr>info_data = utf8 ''[b1,b2]'', info_entryNonce = [], info_sessionNonce = []\<rparr>"
  have v: "vaults ?w ''0xA'' = Some ''vault1''" by (simp add: world_with_payload_def)
  have e: "entries ?w (''vault1'', hashDomain example_vault_env ''example.com'' ''km'') = Some ?info"
    by (simp add: world_with_payload_def example_vault_env_def)
  have p: "try_parse_blob_ids example_vault_env (info_data ?info) = Some [''b1'', ''b2'']"
    by (simp add: try_parse_blob_ids_def text_decode_utf8 example_vault_env_def example_parse_def
        is_blob_id_def the_string_def)
  have b: "blob_store ?w = [''b1'' \<mapsto> [0, 0], ''b2'' \<mapsto> alice_blob]"
    by (simp add: world_with_payload_def)
  from getCredential_partial_failure [of ?w "''0xA''" "''vault1''" example_vault_env
      "''example.com''" "''km''" ?info "[''b1'', ''b2'']"] v e p
  obtain creds where g: "fst (getCredential example_vault_env ?w ''example.com'' ''km'' ''0xA'') =
      Inr (if creds = [] then None else Some creds)"
    and m: "\<And>c. c \<in> set creds \<longleftrightarrow>
            (\<exists>blobId \<in> set [''b1'', ''b2'']. \<exists>bs. blob_store ?w blobId = Some bs \<and>
               process_blob example_vault_env (\<lambda>_. ''example.com'') ''km'' bs = Decoded c)"
    by blast
  have direct: "getCredential example_vault_env ?w ''example.com'' ''km'' ''0xA'' =
     (Inr (Some [alice]),
      [BlobSkipped ''b1'' (BadEnvelope (MalformedEnvelope BlobTooShort)), ReturningCredentials 1])"
    using v e p
    by (simp add: getCredential_found fetch_and_decrypt_def retrieveBlobs_def retrieveBlob_def
        fill_blobMap_def b process_short_blob process_alice_blob)
  have none: "getCredential example_vault_env empty_world ''example.com'' ''km'' ''0xA'' =
     (Inr None, [NoVaultFound])"
    by (simp add: getCredential_def getUserVaultId_def empty_world_def)
  from direct none process_short_blob show ?thesis by simp
qed

subsection \<open>Saving\<close>

lemma existing_blobIds_blob_store:
  "existing_blobIds env (w\<lparr>blob_store := bs\<rparr>) ex vaultId h = existing_blobIds env w ex vaultId h"
  by (simp add: existing_blobIds_def getCredentialInfoFromDynamicField_def)

lemma existing_blobIds_vaults:
  "existing_blobIds env (w\<lparr>vaults := vs\<rparr>) ex vaultId h = existing_blobIds env w ex vaultId h"
  by (simp add: existing_blobIds_def getCredentialInfoFromDynamicField_def)

lemma saveCredential_success:
  assumes "saveCredential env w0 c KM address inp = (Inr (), w')"
  defines "vaultId \<equiv> vault_for w0 address inp"
    and "h \<equiv> hashDomain env (domain c) KM"
  shows "\<exists>KS iv ct blobId.
      deriveKS env KM (sessionNonce inp) = Some KS \<and>
      encrypt env (json_stringify env (credential_json c)) KS = (iv, ct) \<and>
      store_answer inp = Some blobId \<and>
      vaults w' = (vaults w0)(address \<mapsto> vaultId) \<and>
      blob_store w' = (blob_store w0)(blobId \<mapsto>
         of_nat (length (sessionNonce inp)) # sessionNonce inp @ of_nat (length iv) # iv @ ct) \<and>
      entries w' = (entries w0)((vaultId, h) \<mapsto>
         \<lparr>info_data = utf8 (json_stringify env
                                (JArray (ids_on_ledger env w0 vaultId h @ [JString blobId]))),
          info_entryNonce = [], info_sessionNonce = []\<rparr>)"
proof -
  obtain w1 where g: "getOrCreateVault w0 address (newVaultId inp) = (vaultId, w1)"
    unfolding vaultId_def vault_for_def by (cases "getOrCreateVault w0 address (newVaultId inp)") simp
  have w1: "vaults w1 = (vaults w0)(address \<mapsto> vaultId)" "entries w1 = entries w0"
    "blob_store w1 = blob_store w0"
    using g by (auto simp: getOrCreateVault_def fun_eq_iff split: option.splits)
  have w1': "w1 = w0\<lparr>vaults := (vaults w0)(address \<mapsto> vaultId)\<rparr>"
    using w1 by simp
  obtain KS where ks: "deriveKS env KM (sessionNonce inp) = Some KS"
    using assms(1) g by (cases "deriveKS env KM (sessionNonce inp)")
      (auto simp: saveCredential_def Let_def h_def)
  obtain iv ct where enc: "encrypt env (json_stringify env (credential_json c)) KS = (iv, ct)"
    by (cases "encrypt env (json_stringify env (credential_json c)) KS")
  let ?blob = "of_nat (length (sessionNonce inp)) # sessionNonce inp @ of_nat (length iv) # iv @ ct :: bytes"
  note defs = saveCredential_def Let_def g ks enc encode_envelope_layout checkCredentialExists_def
  have wallet: "wallet_ok inp"
  proof (rule ccontr)
    assume "\<not> wallet_ok inp"
    then have "saveCredential env w0 c KM address inp = (Inl WalletsRequired, w1)"
      by (simp add: defs)
    with assms(1) show False by simp
  qed
  obtain blobId w2 where st: "storeBlob env w1 ?blob (store_answer inp) = Some (blobId, w2)"
  proof (cases "storeBlob env w1 ?blob (store_answer inp)")
    case None
    then have "saveCredential env w0 c KM address inp = (Inl StoreBlobFailed, w1)"
      by (simp add: defs wallet)
    with assms(1) show ?thesis by simp
  next
    case (Some r)
    then show ?thesis using that by (cases r) simp
  qed
  then have ans: "store_answer inp = Some blobId"
    and w2: "w2 = w1\<lparr>blob_store := (blob_store w1)(blobId \<mapsto> ?blob)\<rparr>"
    by (auto simp: storeBlob_def split: option.splits if_splits)
  have ids: "existing_blobIds env w2 (entries w0 (vaultId, h) \<noteq> None) vaultId h =
      ids_on_ledger env w0 vaultId h"
    unfolding w2 w1' ids_on_ledger_def
    by (simp add: existing_blobIds_blob_store existing_blobIds_vaults)
  let ?d = "utf8 (json_stringify env (JArray (ids_on_ledger env w0 vaultId h @ [JString blobId])))"
  have auth: "vaults w2 address = Some vaultId" and ent2: "entries w2 = entries w0"
    unfolding w2 using w1 by simp_all
  have upd: "entries w0 (vaultId, h) \<noteq> None \<Longrightarrow>
      updateCredential w2 vaultId h ?d [] [] address = Inr (write_entry w2 vaultId h ?d [] [])"
    by (simp add: updateCredential_def auth ent2)
  have add: "entries w0 (vaultId, h) = None \<Longrightarrow>
      addCredential w2 vaultId h ?d [] [] address = Inr (write_entry w2 vaultId h ?d [] [])"
    by (simp add: addCredential_def auth ent2)
  have "saveCredential env w0 c KM address inp = (Inr (), write_entry w2 vaultId h ?d [] [])"
  proof (cases "entries w0 (vaultId, h) = None")
    case True
    with add [OF True] ids show ?thesis
      by (simp add: defs wallet st w1 h_def)
  next
    case False
    with upd [OF False] ids show ?thesis
      by (simp add: defs wallet st w1 h_def)
  qed
  with assms(1) have w': "w' = write_entry w2 vaultId h ?d [] []" by simp
  have "vaults w' = (vaults w0)(address \<mapsto> vaultId)"
    unfolding w' write_entry_def w2 using w1 by simp
  moreover have "blob_store w' = (blob_store w0)(blobId \<mapsto> ?blob)"
    unfolding w' write_entry_def w2 using w1 by simp
  moreover have "entries w' = (entries w0)((vaultId, h) \<mapsto>
         \<lparr>info_data = ?d, info_entryNonce = [], info_sessionNonce = []\<rparr>)"
    unfolding w' write_entry_def using ent2 by simp
  ultimately show ?thesis using ks enc ans by blast
qed

lemma checked_credential_json:
  assumes "username c \<noteq> []" and "password c \<noteq> []"
  shows "checked_credential (credential_json c) = Some (Some (username c, password c))"
  using assms
  by (simp add: checked_credential_def credential_json_def get_property_def nonempty_string_def
      the_string_def)

lemma process_blob_of_saved:
  assumes inv: "decrypt_inverts_encrypt env KM nonce (json_stringify env (credential_json c))"
    and lim: "envelope_within_limits env KM nonce (json_stringify env (credential_json c))"
    and ks: "deriveKS env KM nonce = Some KS"
    and enc: "encrypt env (json_stringify env (credential_json c)) KS = (iv, ct)"
    and json: "json_round_trips env (credential_json c)"
    and ne: "username c \<noteq> []" "password c \<noteq> []"
  shows "process_blob env pick KM (of_nat (length nonce) # nonce @ of_nat (length iv) # iv @ ct) =
     Decoded \<lparr>domain = pick (credential_json c), username = username c, password = password c\<rparr>"
proof -
  from inv ks enc have dec: "decrypt env iv ct KS = Some (json_stringify env (credential_json c))"
    by (simp add: decrypt_inverts_encrypt_def)
  from lim ks enc have len: "length nonce \<le> 255" "length iv \<le> 255"
      "0 < length nonce + length iv + length ct"
    and spread: "\<not> spread_throws env nonce" "\<not> spread_throws env iv" "\<not> spread_throws env ct"
    by (auto simp: envelope_within_limits_def spread_throws_def)
  from len(3) have "nonce \<noteq> [] \<or> iv \<noteq> [] \<or> ct \<noteq> []" by auto
  from decode_envelope_layout [OF len(1,2) this]
  have d: "decode_envelope (of_nat (length nonce) # nonce @ of_nat (length iv) # iv @ ct) =
      Inr (nonce, iv, ct)" .
  from json have p: "json_parse env (json_stringify env (credential_json c)) = Some (credential_json c)"
    by (simp add: json_round_trips_def)
  show ?thesis
    by (simp add: process_blob_def d ks dec p spread checked_credential_json [OF ne])
qed

subsection \<open>Two saves in the small environment\<close>

lemmas vault_run_defs = saveCredential_def getOrCreateVault_def checkCredentialExists_def
  existing_blobIds_def getCredentialInfoFromDynamicField_def storeBlob_def updateCredential_def
  addCredential_def write_entry_def encode_envelope_layout text_decode_utf8 example_vault_env_def
  example_stringify_def example_parse_def credential_json_def first_inputs_def second_inputs_def
  empty_world_def alice_def bob_def carol_def saved_once_def saved_twice_def Let_def

lemma save_first:
  "c = alice \<or> c = bob \<or> c = carol \<Longrightarrow>
   saveCredential example_vault_env empty_world c ''km'' ''0xA'' first_inputs =
     (Inr (), saved_once (example_stringify (credential_json c)))"
  by (auto simp: vault_run_defs)

lemma save_second:
  "c = alice \<or> c = bob \<or> c = carol \<Longrightarrow>
   saveCredential example_vault_env (saved_once first) c ''km'' ''0xA'' second_inputs =
     (Inr (), saved_twice first (example_stringify (credential_json c)))"
  by (auto simp: vault_run_defs)

lemma example_blob_outcome:
  assumes n: "nonce = [9] \<or> nonce = [8]" and len: "length text \<le> 65535"
  shows "process_blob example_vault_env pick ''km'' (1 # nonce @ 3 # [1, 2, 3] @ utf8 text) =
     (case example_parse text of
        None \<Rightarrow> Skipped Caught
      | Some credentialData \<Rightarrow>
          (case checked_credential credentialData of
             None \<Rightarrow> Skipped Caught
           | Some None \<Rightarrow> Skipped InvalidCredentialData
           | Some (Some (u, p)) \<Rightarrow>
               Decoded \<lparr>domain = pick credentialData, username = u, password = p\<rparr>))"
proof -
  have "decode_envelope (of_nat (length nonce) # nonce @ of_nat (length [1, 2, 3 :: byte]) #
      [1, 2, 3] @ utf8 text) = Inr (nonce, [1, 2, 3], utf8 text)"
    using n by (intro decode_envelope_layout) auto
  then have d: "decode_envelope (1 # nonce @ 3 # [1, 2, 3] @ utf8 text) =
      Inr (nonce, [1, 2, 3], utf8 text)"
    using n by auto
  have ks: "deriveKS example_vault_env ''km'' nonce = Some (''km'' @ text_decode nonce)"
    using n by (auto simp: example_vault_env_def)
  have sp: "\<not> spread_throws example_vault_env nonce"
    "\<not> spread_throws example_vault_env [1, 2, 3]"
    "\<not> spread_throws example_vault_env (utf8 text)"
    using n len by (auto simp: spread_throws_def example_vault_env_def length_utf8)
  have dec: "decrypt example_vault_env [1, 2, 3] (utf8 text) (''km'' @ text_decode nonce) = Some text"
    by (simp add: example_vault_env_def text_decode_utf8)
  have jp: "json_parse example_vault_env = example_parse" by (simp add: example_vault_env_def)
  show ?thesis
    unfolding process_blob_def d
    by (simp only: sum.case prod.case ks dec jp option.case sp if_False simp_thms)
qed

lemma checked_example_credentials:
  "checked_credential (credential_json alice) = Some (Some (''alice'', ''pw1''))"
  "checked_credential (credential_json bob) = Some (Some (''bob'', ''pw2''))"
  "checked_credential (credential_json carol) = Some None"
  by (simp_all add: checked_credential_def credential_json_def get_property_def
      nonempty_string_def the_string_def alice_def bob_def carol_def)

lemma example_parse_texts:
  "example_parse ''{alice}'' = Some (credential_json alice)"
  "example_parse ''{bob}'' = Some (credential_json bob)"
  "example_parse ''{carol}'' = Some (credential_json carol)"
  by (simp_all add: example_parse_def)

lemma get_after_two_saves:
  "getCredential example_vault_env (saved_twice first second) ''example.com'' ''km'' ''0xA'' =
     (Inr (fst (fetch_and_decrypt example_vault_env (saved_twice first second)
                  (\<lambda>_. ''example.com'') ''km'' [''b1'', ''b2''])),
      snd (fetch_and_decrypt example_vault_env (saved_twice first second)
             (\<lambda>_. ''example.com'') ''km'' [''b1'', ''b2'']))"
  by (simp add: getCredential_def getUserVaultId_def checkCredentialExists_def
      getCredentialInfoFromDynamicField_def saved_twice_def example_vault_env_def
      try_parse_blob_ids_def text_decode_utf8 example_parse_def is_blob_id_def the_string_def
      case_prod_unfold Let_def)

lemma blobs_after_two_saves:
  "retrieveBlobs (saved_twice first second) [''b1'', ''b2''] =
     [(''b1'', 1 # [9] @ 3 # [1, 2, 3] @ utf8 first), (''b2'', 1 # [8] @ 3 # [1, 2, 3] @ utf8 second)]"
  by (simp add: retrieveBlobs_def retrieveBlob_def fill_blobMap_def saved_twice_def)


lemma example_stringify_texts:
  "example_stringify (credential_json alice) = ''{alice}''"
  "example_stringify (credential_json bob) = ''{bob}''"
  "example_stringify (credential_json carol) = ''{carol}''"
  by (simp_all add: example_stringify_def credential_json_def carol_def bob_def alice_def)

lemmas example_blob_outcomes =
  example_blob_outcome [of "[9]", simplified] example_blob_outcome [of "[8]", simplified]

lemma get_carol_bob:
  "getCredential example_vault_env (saved_twice ''{carol}'' ''{bob}'') ''example.com'' ''km'' ''0xA'' =
     (Inr (Some [bob]), [BlobSkipped ''b1'' InvalidCredentialData, ReturningCredentials 1])"
  by (simp add: get_after_two_saves fetch_and_decrypt_def blobs_after_two_saves
      example_blob_outcomes example_parse_texts checked_example_credentials)
    (simp add: bob_def)

lemma get_alice_bob:
  "getCredential example_vault_env (saved_twice ''{alice}'' ''{bob}'') ''example.com'' ''km'' ''0xA'' =
     (Inr (Some [alice, bob]), [ReturningCredentials 2])"
  by (simp add: get_after_two_saves fetch_and_decrypt_def blobs_after_two_saves
      example_blob_outcomes example_parse_texts checked_example_credentials)
    (simp add: alice_def bob_def)

text \<open>
  Saving a credential with an empty password and then another one for the same domain:
  both saves succeed and the array on the ledger holds both identifiers, but
  \<^verbatim>\<open>getCredential\<close> skips the first blob, whose password fails its check, and returns the
  second account alone.
\<close>

theorem save_twice_get_both_counterexample:
  "saveCredential example_vault_env empty_world carol ''km'' ''0xA'' first_inputs =
     (Inr (), saved_once ''{carol}'') \<and>
   saveCredential example_vault_env (saved_once ''{carol}'') bob ''km'' ''0xA'' second_inputs =
     (Inr (), saved_twice ''{carol}'' ''{bob}'') \<and>
   domain carol = domain bob \<and> carol \<noteq> bob \<and>
   getCredential example_vault_env (saved_twice ''{carol}'' ''{bob}'') ''example.com'' ''km'' ''0xA'' =
     (Inr (Some [bob]), [BlobSkipped ''b1'' InvalidCredentialData, ReturningCredentials 1])"
  using save_first [of carol] save_second [of bob "''{carol}''"] get_carol_bob
  by (simp add: example_stringify_texts) (simp add: carol_def bob_def)

text \<open>
  Claim C2 (as amended). A save appends the identifier of the new blob to the identifiers
  that the record of the domain holds, which are the elements of its payload when that
  parses as a JSON array and none otherwise (a legacy payload is started afresh); it never
  drops one. So after two successful saves for one domain, of credentials whose usernames
  and passwords are not empty, the record holds the earlier identifiers followed by the two
  new ones, and \<^verbatim>\<open>getCredential\<close> returns a list with both accounts. This is for envelopes
  within the limits of the reader (a nonce and an IV of at most 255 bytes, at least three
  bytes in all, and no field with more bytes than a call takes arguments), a blob store that
  answers with two different non-empty identifiers and serves what it has stored, a record
  that held nothing but blob identifiers before, and a crypto module and a \<^verbatim>\<open>JSON\<close> that
  read back what they wrote.
\<close>

theorem save_twice_get_both:
  fixes env :: vault_env and w0 w1 w2 :: world and c1 c2 :: Credential
    and KM address :: string and inp1 inp2 :: save_inputs
  defines "vaultId \<equiv> vault_for w0 address inp1"
    and "h \<equiv> hashDomain env (domain c1) KM"
  defines "xs \<equiv> ids_on_ledger env w0 vaultId h"
  assumes s1: "saveCredential env w0 c1 KM address inp1 = (Inr (), w1)"
    and s2: "saveCredential env w1 c2 KM address inp2 = (Inr (), w2)"
    and dom: "domain c2 = domain c1"
    and a1: "store_answer inp1 = Some b1" and a2: "store_answer inp2 = Some b2"
    and b: "b1 \<noteq> b2" "b1 \<noteq> []" "b2 \<noteq> []"
    and ne1: "username c1 \<noteq> []" "password c1 \<noteq> []"
    and ne2: "username c2 \<noteq> []" "password c2 \<noteq> []"
    and cr1: "decrypt_inverts_encrypt env KM (sessionNonce inp1) (json_stringify env (credential_json c1))"
    and cr2: "decrypt_inverts_encrypt env KM (sessionNonce inp2) (json_stringify env (credential_json c2))"
    and lim1: "envelope_within_limits env KM (sessionNonce inp1) (json_stringify env (credential_json c1))"
    and lim2: "envelope_within_limits env KM (sessionNonce inp2) (json_stringify env (credential_json c2))"
    and j1: "json_round_trips env (credential_json c1)"
    and j2: "json_round_trips env (credential_json c2)"
    and ids: "list_all is_blob_id xs"
    and ja1: "json_round_trips env (JArray (xs @ [JString b1]))"
    and ja2: "json_round_trips env (JArray (xs @ [JString b1, JString b2]))"
  shows "entries w1 (vaultId, h) =
           Some \<lparr>info_data = utf8 (json_stringify env (JArray (xs @ [JString b1]))),
                 info_entryNonce = [], info_sessionNonce = []\<rparr> \<and>
         entries w2 (vaultId, h) =
           Some \<lparr>info_data = utf8 (json_stringify env (JArray (xs @ [JString b1, JString b2]))),
                 info_entryNonce = [], info_sessionNonce = []\<rparr> \<and>
         (\<exists>creds. fst (getCredential env w2 (domain c1) KM address) = Inr (Some creds) \<and>
            c1 \<in> set creds \<and> c2 \<in> set creds)"
proof -
  from saveCredential_success [OF s1] a1 obtain KS1 iv1 ct1 where
    ks1: "deriveKS env KM (sessionNonce inp1) = Some KS1"
    and enc1: "encrypt env (json_stringify env (credential_json c1)) KS1 = (iv1, ct1)"
    and v1: "vaults w1 = (vaults w0)(address \<mapsto> vaultId)"
    and bs1: "blob_store w1 = (blob_store w0)(b1 \<mapsto>
         of_nat (length (sessionNonce inp1)) # sessionNonce inp1 @ of_nat (length iv1) # iv1 @ ct1)"
    and e1: "entries w1 = (entries w0)((vaultId, h) \<mapsto>
         \<lparr>info_data = utf8 (json_stringify env (JArray (xs @ [JString b1]))),
          info_entryNonce = [], info_sessionNonce = []\<rparr>)"
    unfolding vaultId_def h_def xs_def by auto
  have vf: "vault_for w1 address inp2 = vaultId"
    by (simp add: vault_for_def getOrCreateVault_def v1)
  have h2: "hashDomain env (domain c2) KM = h" by (simp add: h_def dom)
  have ids1: "ids_on_ledger env w1 vaultId h = xs @ [JString b1]"
    using ja1
    by (simp add: ids_on_ledger_def existing_blobIds_def getCredentialInfoFromDynamicField_def e1
        text_decode_utf8 json_round_trips_def)
  from saveCredential_success [OF s2] a2 obtain KS2 iv2 ct2 where
    ks2: "deriveKS env KM (sessionNonce inp2) = Some KS2"
    and enc2: "encrypt env (json_stringify env (credential_json c2)) KS2 = (iv2, ct2)"
    and v2: "vaults w2 = (vaults w1)(address \<mapsto> vaultId)"
    and bs2: "blob_store w2 = (blob_store w1)(b2 \<mapsto>
         of_nat (length (sessionNonce inp2)) # sessionNonce inp2 @ of_nat (length iv2) # iv2 @ ct2)"
    and e2: "entries w2 = (entries w1)((vaultId, h) \<mapsto>
         \<lparr>info_data = utf8 (json_stringify env (JArray ((xs @ [JString b1]) @ [JString b2]))),
          info_entryNonce = [], info_sessionNonce = []\<rparr>)"
    unfolding vf h2 ids1 by auto
  let ?info2 = "\<lparr>info_data = utf8 (json_stringify env (JArray (xs @ [JString b1, JString b2]))),
                 info_entryNonce = [], info_sessionNonce = []\<rparr>"
  have ent1: "entries w1 (vaultId, h) =
           Some \<lparr>info_data = utf8 (json_stringify env (JArray (xs @ [JString b1]))),
                 info_entryNonce = [], info_sessionNonce = []\<rparr>"
    by (simp add: e1)
  have ent2: "entries w2 (vaultId, h) = Some ?info2" by (simp add: e2)
  have vault2: "vaults w2 address = Some vaultId" by (simp add: v2)
  let ?ids = "map the_string (xs @ [JString b1, JString b2])"
  have "list_all is_blob_id (xs @ [JString b1, JString b2])"
    using ids b by (simp add: is_blob_id_def)
  with ja2 have parse: "try_parse_blob_ids env (info_data ?info2) = Some ?ids"
    unfolding try_parse_blob_ids_Some_iff
    by (simp add: text_decode_utf8 json_round_trips_def)
  have get: "fst (getCredential env w2 (domain c1) KM address) =
      Inr (fst (fetch_and_decrypt env w2 (\<lambda>_. domain c1) KM ?ids))"
    using getCredential_found [of w2 address vaultId env "domain c1" KM ?info2] vault2 ent2 parse
    by (simp add: h_def)
  from fetch_and_decrypt_characterised [of env w2 "\<lambda>_. domain c1" KM ?ids]
  obtain creds where
    f: "fst (fetch_and_decrypt env w2 (\<lambda>_. domain c1) KM ?ids) =
          (if creds = [] then None else Some creds)"
    and m: "\<And>c. c \<in> set creds \<longleftrightarrow>
        (\<exists>blobId \<in> set ?ids. \<exists>bs. blob_store w2 blobId = Some bs \<and>
           process_blob env (\<lambda>_. domain c1) KM bs = Decoded c)"
    by blast
  have in1: "b1 \<in> set ?ids" and in2: "b2 \<in> set ?ids" by (simp_all add: the_string_def)
  have st1: "blob_store w2 b1 = Some (of_nat (length (sessionNonce inp1)) # sessionNonce inp1 @
      of_nat (length iv1) # iv1 @ ct1)"
    using b(1) by (simp add: bs2 bs1)
  have st2: "blob_store w2 b2 = Some (of_nat (length (sessionNonce inp2)) # sessionNonce inp2 @
      of_nat (length iv2) # iv2 @ ct2)"
    by (simp add: bs2)
  have p1: "process_blob env (\<lambda>_. domain c1) KM (of_nat (length (sessionNonce inp1)) #
      sessionNonce inp1 @ of_nat (length iv1) # iv1 @ ct1) = Decoded c1"
    using process_blob_of_saved [OF cr1 lim1 ks1 enc1 j1 ne1, of "\<lambda>_. domain c1"] by simp
  have p2: "process_blob env (\<lambda>_. domain c1) KM (of_nat (length (sessionNonce inp2)) #
      sessionNonce inp2 @ of_nat (length iv2) # iv2 @ ct2) = Decoded c2"
    using process_blob_of_saved [OF cr2 lim2 ks2 enc2 j2 ne2, of "\<lambda>_. domain c1"] dom by simp
  have c1: "c1 \<in> set creds" unfolding m using in1 st1 p1 by blast
  have c2: "c2 \<in> set creds" unfolding m using in2 st2 p2 by blast
  from c1 have "creds \<noteq> []" by auto
  with get f c1 c2 have "\<exists>creds. fst (getCredential env w2 (domain c1) KM address) = Inr (Some creds) \<and>
            c1 \<in> set creds \<and> c2 \<in> set creds" by auto
  with ent1 ent2 show ?thesis by simp
qed

theorem save_twice_get_both_witness:
  "saveCredential example_vault_env empty_world alice ''km'' ''0xA'' first_inputs =
     (Inr (), saved_once ''{alice}'') \<and>
   saveCredential example_vault_env (saved_once ''{alice}'') bob ''km'' ''0xA'' second_inputs =
     (Inr (), saved_twice ''{alice}'' ''{bob}'') \<and>
   entries (saved_twice ''{alice}'' ''{bob}'') (''vault1'', utf8 ''example.com'') =
     Some \<lparr>info_data = utf8 ''[b1,b2]'', info_entryNonce = [], info_sessionNonce = []\<rparr> \<and>
   (\<exists>creds. fst (getCredential example_vault_env (saved_twice ''{alice}'' ''{bob}'')
       ''example.com'' ''km'' ''0xA'') = Inr (Some creds) \<and> alice \<in> set creds \<and> bob \<in> set creds) \<and>
   getCredential example_vault_env (saved_twice ''{alice}'' ''{bob}'') ''example.com'' ''km'' ''0xA'' =
     (Inr (Some [alice, bob]), [ReturningCredentials 2])"
proof -
  have s1: "saveCredential example_vault_env empty_world alice ''km'' ''0xA'' first_inputs =
     (Inr (), saved_once ''{alice}'')"
    using save_first [of alice] by (simp add: example_stringify_texts)
  have s2: "saveCredential example_vault_env (saved_once ''{alice}'') bob ''km'' ''0xA'' second_inputs =
     (Inr (), saved_twice ''{alice}'' ''{bob}'')"
    using save_second [of bob "''{alice}''"] by (simp add: example_stringify_texts)
  have dom: "domain bob = domain alice" by (simp add: alice_def bob_def)
  have a: "store_answer first_inputs = Some ''b1''" "store_answer second_inputs = Some ''b2''"
    by (simp_all add: first_inputs_def second_inputs_def)
  have b: "''b1'' \<noteq> ''b2''" "''b1'' \<noteq> []" "''b2'' \<noteq> []" by simp_all
  have ne: "username alice \<noteq> []" "password alice \<noteq> []" "username bob \<noteq> []" "password bob \<noteq> []"
    by (simp_all add: alice_def bob_def)
  have vf: "vault_for empty_world ''0xA'' first_inputs = ''vault1''"
    by (simp add: vault_for_def getOrCreateVault_def empty_world_def first_inputs_def)
  have xs: "ids_on_ledger example_vault_env empty_world ''vault1''
      (hashDomain example_vault_env (domain alice) ''km'') = []"
    by (simp add: ids_on_ledger_def existing_blobIds_def empty_world_def)
  have js: "json_stringify example_vault_env = example_stringify"
    and jp: "json_parse example_vault_env = example_parse"
    by (simp_all add: example_vault_env_def)
  have cr1: "decrypt_inverts_encrypt example_vault_env ''km'' (sessionNonce first_inputs)
      (json_stringify example_vault_env (credential_json alice))"
    by (simp add: decrypt_inverts_encrypt_def example_vault_env_def first_inputs_def
        text_decode_utf8)
  have cr2: "decrypt_inverts_encrypt example_vault_env ''km'' (sessionNonce second_inputs)
      (json_stringify example_vault_env (credential_json bob))"
    by (simp add: decrypt_inverts_encrypt_def example_vault_env_def second_inputs_def
        text_decode_utf8)
  have lim1: "envelope_within_limits example_vault_env ''km'' (sessionNonce first_inputs)
      (json_stringify example_vault_env (credential_json alice))"
    by (simp add: envelope_within_limits_def example_vault_env_def first_inputs_def
        example_stringify_texts length_utf8)
  have lim2: "envelope_within_limits example_vault_env ''km'' (sessionNonce second_inputs)
      (json_stringify example_vault_env (credential_json bob))"
    by (simp add: envelope_within_limits_def example_vault_env_def second_inputs_def
        example_stringify_texts length_utf8)
  have j1: "json_round_trips example_vault_env (credential_json alice)"
    and j2: "json_round_trips example_vault_env (credential_json bob)"
    by (simp_all add: json_round_trips_def js jp example_stringify_texts example_parse_texts)
  have ids: "list_all is_blob_id (ids_on_ledger example_vault_env empty_world
      (vault_for empty_world ''0xA'' first_inputs)
      (hashDomain example_vault_env (domain alice) ''km''))"
    by (simp add: vf xs)
  have ja1: "json_round_trips example_vault_env (JArray (ids_on_ledger example_vault_env empty_world
      (vault_for empty_world ''0xA'' first_inputs)
      (hashDomain example_vault_env (domain alice) ''km'') @ [JString ''b1'']))"
    by (simp add: vf xs json_round_trips_def js jp example_stringify_def example_parse_def)
  have ja2: "json_round_trips example_vault_env (JArray (ids_on_ledger example_vault_env empty_world
      (vault_for empty_world ''0xA'' first_inputs)
      (hashDomain example_vault_env (domain alice) ''km'') @ [JString ''b1'', JString ''b2'']))"
    by (simp add: vf xs json_round_trips_def js jp example_stringify_def example_parse_def)
  from save_twice_get_both [OF s1 s2 dom a b ne cr1 cr2 lim1 lim2 j1 j2 ids ja1 ja2]
  have "\<exists>creds. fst (getCredential example_vault_env (saved_twice ''{alice}'' ''{bob}'')
       (domain alice) ''km'' ''0xA'') = Inr (Some creds) \<and> alice \<in> set creds \<and> bob \<in> set creds"
    by blast
  then have both: "\<exists>creds. fst (getCredential example_vault_env (saved_twice ''{alice}'' ''{bob}'')
       ''example.com'' ''km'' ''0xA'') = Inr (Some creds) \<and> alice \<in> set creds \<and> bob \<in> set creds"
    by (simp add: alice_def)
  have ent: "entries (saved_twice ''{alice}'' ''{bob}'') (''vault1'', utf8 ''example.com'') =
     Some \<lparr>info_data = utf8 ''[b1,b2]'', info_entryNonce = [], info_sessionNonce = []\<rparr>"
    by (simp add: saved_twice_def)
  from s1 s2 ent both get_alice_bob show ?thesis by blast
qed

section \<open>Facts about the pending-write queue\<close>

















end
